theory Spec2Isabelle
  imports Complex_Main "HOL-Library.Stream" "HOL-Library.Multiset"
begin

section \<open>Numbers, colours and the random source\<close>

text \<open>
  The game state is computed with Python floats. In the game classes and the main loop
  they are modelled as the real numbers they stand for: rounding, infinities and NaN are
  outside that part of the development. In the projection they are modelled as doubles,
  with their rounding. Python's unbounded \<open>int\<close> is \<open>int\<close>.
\<close>

type_synonym color = "int \<times> int \<times> int"

definition CYAN :: color where "CYAN = (0, 255, 255)"
definition RED :: color where "RED = (255, 50, 50)"
definition YELLOW :: color where "YELLOW = (255, 255, 0)"

text \<open>
  The module \<open>random\<close> holds a hidden generator state. It is modelled as the stream of
  the numbers \<open>random.random()\<close> is still to return; a draw takes the head. Nothing is
  assumed about the numbers in the stream. \<open>random.uniform(a, b)\<close> is
  \<open>a + (b - a) * random()\<close>.
\<close>

type_synonym rng = "real stream"

definition random_random :: "rng \<Rightarrow> real \<times> rng" where
  "random_random g = (shd g, stl g)"

definition random_uniform :: "real \<Rightarrow> real \<Rightarrow> rng \<Rightarrow> real \<times> rng" where
  "random_uniform a b g = (case random_random g of (u, g') \<Rightarrow> (a + (b - a) * u, g'))"

section \<open>The 3D engine\<close>

text \<open>
  \<open>project\<close> is the one function of the program whose result depends on how a float is
  rounded, so here a Python float is modelled as what it is, an IEEE-754 binary64 value:
  a finite number, an infinity or NaN. A finite value is held as the real number it
  stands for, so the two zeros are one value: no operation of \<open>project\<close> tells them
  apart. The parameters are annotated \<open>float\<close>; the small ints that the drawing code
  passes take part in the operations as the floats of the same value.
\<close>

datatype pyfloat = Finite real | PosInf | NegInf | NaN

datatype py_error = ZeroDivisionError | OverflowError | ValueError

text \<open>
  Every arithmetic operation returns the double nearest to the exact result, ties going
  to the even significand. \<open>ulp x\<close> is the spacing of the doubles around \<open>x\<close>: 52
  binary places below the leading bit of \<open>x\<close>, and \<open>2 powi - 1074\<close> in the subnormal
  range. \<open>fl x\<close> is \<open>x\<close> rounded; a rounded magnitude of \<open>2 ^ 1024\<close> or more is
  an overflow, which gives an infinity.
\<close>

definition round_even :: "real \<Rightarrow> int" where
  "round_even r =
     (if r - of_int \<lfloor>r\<rfloor> < 1 / 2 then \<lfloor>r\<rfloor>
      else if 1 / 2 < r - of_int \<lfloor>r\<rfloor> then \<lfloor>r\<rfloor> + 1
      else if even \<lfloor>r\<rfloor> then \<lfloor>r\<rfloor> else \<lfloor>r\<rfloor> + 1)"

definition ulp :: "real \<Rightarrow> real" where
  "ulp x = 2 powi (max \<lfloor>log 2 \<bar>x\<bar>\<rfloor> (- 1022) - 52)"

definition fl :: "real \<Rightarrow> pyfloat" where
  "fl x =
     (let y = of_int (round_even (x / ulp x)) * ulp x
      in if 2 ^ 1024 \<le> \<bar>y\<bar> then (if 0 < x then PosInf else NegInf) else Finite y)"

text \<open>
  The operations of \<open>project\<close> on floats: \<open><\<close>, unary minus, \<open>+\<close>, \<open>-\<close>, \<open>*\<close>
  and \<open>/\<close>. A comparison with NaN is false. Of these only \<open>/\<close> raises, on a zero
  divisor; the others return an infinity or NaN.
\<close>

fun float_lt :: "pyfloat \<Rightarrow> pyfloat \<Rightarrow> bool" where
  "float_lt NaN b = False"
| "float_lt a NaN = False"
| "float_lt (Finite x) (Finite y) = (x < y)"
| "float_lt (Finite x) PosInf = True"
| "float_lt (Finite x) NegInf = False"
| "float_lt PosInf b = False"
| "float_lt NegInf NegInf = False"
| "float_lt NegInf b = True"

fun float_neg :: "pyfloat \<Rightarrow> pyfloat" where
  "float_neg (Finite x) = Finite (- x)"
| "float_neg PosInf = NegInf"
| "float_neg NegInf = PosInf"
| "float_neg NaN = NaN"

fun float_add :: "pyfloat \<Rightarrow> pyfloat \<Rightarrow> pyfloat" where
  "float_add NaN b = NaN"
| "float_add a NaN = NaN"
| "float_add (Finite x) (Finite y) = fl (x + y)"
| "float_add PosInf NegInf = NaN"
| "float_add NegInf PosInf = NaN"
| "float_add PosInf b = PosInf"
| "float_add NegInf b = NegInf"
| "float_add (Finite x) b = b"

definition float_sub :: "pyfloat \<Rightarrow> pyfloat \<Rightarrow> pyfloat" where
  "float_sub a b = float_add a (float_neg b)"

fun float_mul :: "pyfloat \<Rightarrow> pyfloat \<Rightarrow> pyfloat" where
  "float_mul NaN b = NaN"
| "float_mul a NaN = NaN"
| "float_mul (Finite x) (Finite y) = fl (x * y)"
| "float_mul (Finite x) PosInf = (if x = 0 then NaN else if 0 < x then PosInf else NegInf)"
| "float_mul (Finite x) NegInf = (if x = 0 then NaN else if 0 < x then NegInf else PosInf)"
| "float_mul PosInf (Finite y) = (if y = 0 then NaN else if 0 < y then PosInf else NegInf)"
| "float_mul NegInf (Finite y) = (if y = 0 then NaN else if 0 < y then NegInf else PosInf)"
| "float_mul PosInf PosInf = PosInf"
| "float_mul PosInf NegInf = NegInf"
| "float_mul NegInf PosInf = NegInf"
| "float_mul NegInf NegInf = PosInf"

fun float_truediv :: "pyfloat \<Rightarrow> pyfloat \<Rightarrow> py_error + pyfloat" where
  "float_truediv a (Finite y) =
     (if y = 0 then Inl ZeroDivisionError
      else case a of
        Finite x \<Rightarrow> Inr (fl (x / y))
      | PosInf \<Rightarrow> Inr (if 0 < y then PosInf else NegInf)
      | NegInf \<Rightarrow> Inr (if 0 < y then NegInf else PosInf)
      | NaN \<Rightarrow> Inr NaN)"
| "float_truediv (Finite x) PosInf = Inr (Finite 0)"
| "float_truediv (Finite x) NegInf = Inr (Finite 0)"
| "float_truediv a b = Inr NaN"

text \<open>
  \<open>int(f)\<close> truncates a finite float toward zero and raises \<open>OverflowError\<close> on an
  infinity and \<open>ValueError\<close> on NaN.
\<close>

definition trunc :: "real \<Rightarrow> int" where
  "trunc r = (if 0 \<le> r then \<lfloor>r\<rfloor> else \<lceil>r\<rceil>)"

fun py_int :: "pyfloat \<Rightarrow> py_error + int" where
  "py_int (Finite r) = Inr (trunc r)"
| "py_int PosInf = Inl OverflowError"
| "py_int NegInf = Inl OverflowError"
| "py_int NaN = Inl ValueError"

text \<open>
  The constants are the doubles nearest to their literals; \<open>WIDTH / 2\<close> and
  \<open>HEIGHT / 2\<close> divide two integers, with the correctly rounded float as result. The
  result of \<open>project\<close> is the exception it raises, \<open>None\<close>, or the pair.
\<close>

definition WIDTH :: int where "WIDTH = 800"
definition HEIGHT :: int where "HEIGHT = 600"
definition FOV :: pyfloat where "FOV = fl 400"

definition project :: "pyfloat \<Rightarrow> pyfloat \<Rightarrow> pyfloat \<Rightarrow> py_error + (int \<times> int) option" where
  "project x y z =
     (if float_lt z (fl 0.1) then Inr None
      else
        case float_truediv FOV z of
          Inl err \<Rightarrow> Inl err
        | Inr factor \<Rightarrow>
            let px = float_add (fl (real_of_int WIDTH / 2)) (float_mul x factor);
                py = float_sub (fl (real_of_int HEIGHT / 2)) (float_mul y factor)
            in case py_int px of
                 Inl err \<Rightarrow> Inl err
               | Inr sx \<Rightarrow> (case py_int py of Inl err \<Rightarrow> Inl err | Inr sy \<Rightarrow> Inr (Some (sx, sy))))"

section \<open>Game classes\<close>

text \<open>
  Each class is a record; the fields keep the source's names behind a prefix for the
  class (\<open>p_\<close> Player, \<open>l_\<close> Laser, \<open>e_\<close> Enemy, \<open>o_\<close> Obstacle, \<open>pt_\<close> Particle),
  since the classes share field names. A method that mutates \<open>self\<close> returns the
  updated record.
\<close>

datatype key =
  K_LEFT | K_a | K_RIGHT | K_d | K_UP | K_w | K_DOWN | K_s | K_SPACE | K_r | K_other nat

record Player =
  p_x :: real
  p_y :: real
  p_z :: real
  p_vx :: real
  p_vy :: real
  p_speed :: real
  p_bank_angle :: real
  p_cooldown :: real
  p_hp :: int

definition Player_init :: Player where
  "Player_init =
     \<lparr>p_x = 0, p_y = 0, p_z = 10, p_vx = 0, p_vy = 0, p_speed = 15,
      p_bank_angle = 0, p_cooldown = 0, p_hp = 100\<rparr>"

definition Player_update :: "real \<Rightarrow> (key \<Rightarrow> bool) \<Rightarrow> Player \<Rightarrow> Player" where
  "Player_update dt pressed p0 =
     (let p1 = (if pressed K_LEFT \<or> pressed K_a then p0\<lparr>p_vx := - p_speed p0\<rparr>
                else if pressed K_RIGHT \<or> pressed K_d then p0\<lparr>p_vx := p_speed p0\<rparr>
                else p0\<lparr>p_vx := p_vx p0 * 0.8\<rparr>);
          p2 = (if pressed K_UP \<or> pressed K_w then p1\<lparr>p_vy := p_speed p1\<rparr>
                else if pressed K_DOWN \<or> pressed K_s then p1\<lparr>p_vy := - p_speed p1\<rparr>
                else p1\<lparr>p_vy := p_vy p1 * 0.8\<rparr>);
          p3 = p2\<lparr>p_x := p_x p2 + p_vx p2 * dt\<rparr>;
          p4 = p3\<lparr>p_y := p_y p3 + p_vy p3 * dt\<rparr>;
          p5 = p4\<lparr>p_x := max (-15) (min 15 (p_x p4))\<rparr>;
          p6 = p5\<lparr>p_y := max (-8) (min 8 (p_y p5))\<rparr>;
          target_bank = - p_vx p6 * 0.05;
          p7 = p6\<lparr>p_bank_angle :=
                  p_bank_angle p6 + (target_bank - p_bank_angle p6) * 10 * dt\<rparr>
      in if p_cooldown p7 > 0 then p7\<lparr>p_cooldown := p_cooldown p7 - dt\<rparr> else p7)"

record Laser =
  l_x :: real
  l_y :: real
  l_z :: real
  l_speed :: real
  l_active :: bool

definition Laser_init :: "real \<Rightarrow> real \<Rightarrow> real \<Rightarrow> Laser" where
  "Laser_init x y z = \<lparr>l_x = x, l_y = y, l_z = z, l_speed = 100, l_active = True\<rparr>"

definition Laser_update :: "real \<Rightarrow> Laser \<Rightarrow> Laser" where
  "Laser_update dt l0 =
     (let l1 = l0\<lparr>l_z := l_z l0 + l_speed l0 * dt\<rparr>
      in if l_z l1 > 150 then l1\<lparr>l_active := False\<rparr> else l1)"

record Enemy =
  e_x :: real
  e_y :: real
  e_z :: real
  e_speed :: real
  e_active :: bool
  e_radius :: real

definition Enemy_init :: "rng \<Rightarrow> Enemy \<times> rng" where
  "Enemy_init g0 =
     (case random_uniform (-15) 15 g0 of (x, g1) \<Rightarrow>
      case random_uniform (-5) 10 g1 of (y, g2) \<Rightarrow>
      case random_uniform 20 40 g2 of (sp, g3) \<Rightarrow>
        (\<lparr>e_x = x, e_y = y, e_z = 150, e_speed = sp, e_active = True, e_radius = 1.5\<rparr>, g3))"

definition Enemy_update :: "real \<Rightarrow> Enemy \<Rightarrow> Enemy" where
  "Enemy_update dt e0 =
     (let e1 = e0\<lparr>e_z := e_z e0 - e_speed e0 * dt\<rparr>
      in if e_z e1 < 0 then e1\<lparr>e_active := False\<rparr> else e1)"

record Obstacle =
  o_x :: real
  o_y :: real
  o_z :: real
  o_speed :: real
  o_active :: bool
  o_radius :: real

definition Obstacle_init :: "rng \<Rightarrow> Obstacle \<times> rng" where
  "Obstacle_init g0 =
     (case random_uniform (-20) 20 g0 of (x, g1) \<Rightarrow>
        (\<lparr>o_x = x, o_y = -8, o_z = 150, o_speed = 30, o_active = True, o_radius = 2\<rparr>, g1))"

definition Obstacle_update :: "real \<Rightarrow> Obstacle \<Rightarrow> Obstacle" where
  "Obstacle_update dt o0 =
     (let o1 = o0\<lparr>o_z := o_z o0 - o_speed o0 * dt\<rparr>
      in if o_z o1 < 0 then o1\<lparr>o_active := False\<rparr> else o1)"

record Particle =
  pt_x :: real
  pt_y :: real
  pt_z :: real
  pt_vx :: real
  pt_vy :: real
  pt_vz :: real
  pt_life :: real
  pt_color :: color

definition Particle_init :: "real \<Rightarrow> real \<Rightarrow> real \<Rightarrow> color \<Rightarrow> rng \<Rightarrow> Particle \<times> rng" where
  "Particle_init x y z c g0 =
     (case random_uniform (-10) 10 g0 of (vx, g1) \<Rightarrow>
      case random_uniform (-10) 10 g1 of (vy, g2) \<Rightarrow>
      case random_uniform (-10) 10 g2 of (vz, g3) \<Rightarrow>
        (\<lparr>pt_x = x, pt_y = y, pt_z = z, pt_vx = vx, pt_vy = vy, pt_vz = vz,
          pt_life = 1, pt_color = c\<rparr>, g3))"

definition Particle_update :: "real \<Rightarrow> Particle \<Rightarrow> Particle" where
  "Particle_update dt q =
     q\<lparr>pt_x := pt_x q + pt_vx q * dt, pt_y := pt_y q + pt_vy q * dt,
       pt_z := pt_z q + pt_vz q * dt, pt_life := pt_life q - dt\<rparr>"

section \<open>The main game\<close>

text \<open>
  The local variables of \<open>main\<close> that the loop reads and writes form the game state;
  the generator state of \<open>random\<close> is part of it. One run of the body of
  \<open>while running\<close> is the function \<open>frame\<close>. What the body reads from outside is
  its input: the time \<open>clock.tick\<close> reports (\<open>dt\<close>, in seconds), the queue
  \<open>pygame.event.get()\<close> returns and the pressed keys. Drawing reads the state and
  writes none of these variables (the list it sorts is a fresh one), so it has no part in
  \<open>frame\<close>.
\<close>

datatype event = QUIT | KEYDOWN key | OTHER_EVENT

record game =
  player :: Player
  lasers :: "Laser list"
  enemies :: "Enemy list"
  obstacles :: "Obstacle list"
  particles :: "Particle list"
  score :: int
  world_speed :: real
  scroll_offset :: real
  running :: bool
  game_over :: bool
  rng_state :: rng

record frame_input =
  dt :: real
  events :: "event list"
  pressed_keys :: "key \<Rightarrow> bool"

definition initial_game :: "rng \<Rightarrow> game" where
  "initial_game g =
     \<lparr>player = Player_init, lasers = [], enemies = [], obstacles = [], particles = [],
      score = 0, world_speed = 30, scroll_offset = 0, running = True, game_over = False,
      rng_state = g\<rparr>"

subsection \<open>Events\<close>

definition fire :: "game \<Rightarrow> game" where
  "fire s =
     (if p_cooldown (player s) \<le> 0 then
        s\<lparr>lasers := lasers s
              @ [Laser_init (p_x (player s) - 1.5) (p_y (player s)) (p_z (player s)),
                 Laser_init (p_x (player s) + 1.5) (p_y (player s)) (p_z (player s))],
          player := (player s)\<lparr>p_cooldown := 0.2\<rparr>\<rparr>
      else s)"

definition restart :: "game \<Rightarrow> game" where
  "restart s =
     s\<lparr>player := Player_init, lasers := [], enemies := [], obstacles := [],
       particles := [], score := 0, game_over := False\<rparr>"

fun handle_event :: "event \<Rightarrow> game \<Rightarrow> game" where
  "handle_event QUIT s = s\<lparr>running := False\<rparr>"
| "handle_event (KEYDOWN k) s =
     (let s1 = (if k = K_SPACE \<and> \<not> game_over s then fire s else s)
      in if k = K_r \<and> game_over s1 then restart s1 else s1)"
| "handle_event OTHER_EVENT s = s"

fun handle_events :: "event list \<Rightarrow> game \<Rightarrow> game" where
  "handle_events [] s = s"
| "handle_events (ev # evs) s = handle_events evs (handle_event ev s)"

subsection \<open>Update\<close>

definition scroll :: "real \<Rightarrow> game \<Rightarrow> game" where
  "scroll d s =
     (let s1 = s\<lparr>scroll_offset := scroll_offset s + world_speed s * d\<rparr>
      in if scroll_offset s1 > 10 then s1\<lparr>scroll_offset := scroll_offset s1 - 10\<rparr> else s1)"

definition spawn_enemy :: "game \<Rightarrow> game" where
  "spawn_enemy s =
     (case random_random (rng_state s) of (u, g1) \<Rightarrow>
        if u < 0.02 then
          (case Enemy_init g1 of (e, g2) \<Rightarrow> s\<lparr>enemies := enemies s @ [e], rng_state := g2\<rparr>)
        else s\<lparr>rng_state := g1\<rparr>)"

definition spawn_obstacle :: "game \<Rightarrow> game" where
  "spawn_obstacle s =
     (case random_random (rng_state s) of (u, g1) \<Rightarrow>
        if u < 0.03 then
          (case Obstacle_init g1 of (ob, g2) \<Rightarrow>
             s\<lparr>obstacles := obstacles s @ [ob], rng_state := g2\<rparr>)
        else s\<lparr>rng_state := g1\<rparr>)"

definition update_entities :: "real \<Rightarrow> game \<Rightarrow> game" where
  "update_entities d s =
     s\<lparr>lasers := map (Laser_update d) (lasers s),
       enemies := map (Enemy_update d) (enemies s),
       obstacles := map (Obstacle_update d) (obstacles s),
       particles := map (Particle_update d) (particles s)\<rparr>"

definition remove_inactive :: "game \<Rightarrow> game" where
  "remove_inactive s =
     s\<lparr>lasers := filter l_active (lasers s),
       enemies := filter e_active (enemies s),
       obstacles := filter o_active (obstacles s),
       particles := filter (\<lambda>q. pt_life q > 0) (particles s)\<rparr>"

text \<open>
  \<open>for _ in range(n): particles.append(Particle(x, y, z, c))\<close>: each new particle
  draws its velocity from the generator.
\<close>

fun spawn_particles :: "nat \<Rightarrow> real \<Rightarrow> real \<Rightarrow> real \<Rightarrow> color \<Rightarrow> game \<Rightarrow> game" where
  "spawn_particles 0 x y z c s = s"
| "spawn_particles (Suc n) x y z c s =
     (case Particle_init x y z c (rng_state s) of (q, g) \<Rightarrow>
        spawn_particles n x y z c (s\<lparr>particles := particles s @ [q], rng_state := g\<rparr>))"

subsection \<open>Collisions: lasers versus enemies\<close>

text \<open>
  The loops mutate the objects the lists hold. Every object is created once and appended
  once to one list, so no two list positions share an object, and a loop over a list is a
  recursion that returns the list of the updated objects. The game state is threaded
  through for \<open>score\<close>, \<open>particles\<close> and the generator; the loops do not read its
  \<open>lasers\<close> and \<open>enemies\<close> fields, which are written back when the pass is over.

  \<open>laser_enemy\<close> is the body of the inner loop, for one laser and one enemy.
\<close>

definition laser_enemy :: "Laser \<Rightarrow> Enemy \<Rightarrow> game \<Rightarrow> Laser \<times> Enemy \<times> game" where
  "laser_enemy l e s =
     (if \<not> e_active e \<or> \<not> l_active l then (l, e, s)
      else
        let dist = sqrt ((l_x l - e_x e)\<^sup>2 + (l_y l - e_y e)\<^sup>2 + (l_z l - e_z e)\<^sup>2)
        in if dist < e_radius e + 1 then
             let e' = e\<lparr>e_active := False\<rparr>;
                 l' = l\<lparr>l_active := False\<rparr>;
                 s1 = s\<lparr>score := score s + 100\<rparr>;
                 s2 = spawn_particles 15 (e_x e') (e_y e') (e_z e') RED s1;
                 s3 = spawn_particles 10 (e_x e') (e_y e') (e_z e') YELLOW s2
             in (l', e', s3)
           else (l, e, s))"

fun laser_vs_enemies :: "Laser \<Rightarrow> Enemy list \<Rightarrow> game \<Rightarrow> Laser \<times> Enemy list \<times> game" where
  "laser_vs_enemies l [] s = (l, [], s)"
| "laser_vs_enemies l (e # es) s =
     (case laser_enemy l e s of (l1, e1, s1) \<Rightarrow>
      case laser_vs_enemies l1 es s1 of (l2, es2, s2) \<Rightarrow> (l2, e1 # es2, s2))"

fun lasers_vs_enemies ::
  "Laser list \<Rightarrow> Enemy list \<Rightarrow> game \<Rightarrow> Laser list \<times> Enemy list \<times> game" where
  "lasers_vs_enemies [] es s = ([], es, s)"
| "lasers_vs_enemies (l # ls) es s =
     (case laser_vs_enemies l es s of (l1, es1, s1) \<Rightarrow>
      case lasers_vs_enemies ls es1 s1 of (ls2, es2, s2) \<Rightarrow> (l1 # ls2, es2, s2))"

definition collide_lasers :: "game \<Rightarrow> game" where
  "collide_lasers s =
     (case lasers_vs_enemies (lasers s) (enemies s) s of
        (ls, es, s') \<Rightarrow> s'\<lparr>lasers := ls, enemies := es\<rparr>)"

subsection \<open>Collisions: player versus enemies and obstacles\<close>

text \<open>
  \<open>enemies + obstacles\<close> is a new list of the same objects: the enemies in their order,
  then the obstacles. The loop reads the attributes both classes have, so its elements
  are a tagged union of the two, and the objects it updated are read back by their tag.
\<close>

datatype entity = EnemyE Enemy | ObstacleE Obstacle

fun entity_x :: "entity \<Rightarrow> real" where
  "entity_x (EnemyE e) = e_x e"
| "entity_x (ObstacleE ob) = o_x ob"

fun entity_y :: "entity \<Rightarrow> real" where
  "entity_y (EnemyE e) = e_y e"
| "entity_y (ObstacleE ob) = o_y ob"

fun entity_z :: "entity \<Rightarrow> real" where
  "entity_z (EnemyE e) = e_z e"
| "entity_z (ObstacleE ob) = o_z ob"

fun entity_radius :: "entity \<Rightarrow> real" where
  "entity_radius (EnemyE e) = e_radius e"
| "entity_radius (ObstacleE ob) = o_radius ob"

fun entity_active :: "entity \<Rightarrow> bool" where
  "entity_active (EnemyE e) = e_active e"
| "entity_active (ObstacleE ob) = o_active ob"

fun entity_deactivate :: "entity \<Rightarrow> entity" where
  "entity_deactivate (EnemyE e) = EnemyE (e\<lparr>e_active := False\<rparr>)"
| "entity_deactivate (ObstacleE ob) = ObstacleE (ob\<lparr>o_active := False\<rparr>)"

fun enemies_of :: "entity list \<Rightarrow> Enemy list" where
  "enemies_of [] = []"
| "enemies_of (EnemyE e # xs) = e # enemies_of xs"
| "enemies_of (ObstacleE ob # xs) = enemies_of xs"

fun obstacles_of :: "entity list \<Rightarrow> Obstacle list" where
  "obstacles_of [] = []"
| "obstacles_of (EnemyE e # xs) = obstacles_of xs"
| "obstacles_of (ObstacleE ob # xs) = ob # obstacles_of xs"

text \<open>\<open>player_entity\<close> is the body of the loop, for one entity.\<close>

definition player_entity :: "entity \<Rightarrow> game \<Rightarrow> entity \<times> game" where
  "player_entity en s =
     (if \<not> entity_active en then (en, s)
      else
        let dist = sqrt ((p_x (player s) - entity_x en)\<^sup>2
                         + (p_y (player s) - entity_y en)\<^sup>2
                         + (p_z (player s) - entity_z en)\<^sup>2)
        in if dist < entity_radius en + 1.5 then
             let en' = entity_deactivate en;
                 s1 = s\<lparr>player := (player s)\<lparr>p_hp := p_hp (player s) - 25\<rparr>\<rparr>;
                 s2 = spawn_particles 20 (p_x (player s1)) (p_y (player s1)) (p_z (player s1))
                        CYAN s1
             in if p_hp (player s2) \<le> 0 then (en', s2\<lparr>game_over := True\<rparr>) else (en', s2)
           else (en, s))"

fun player_vs_entities :: "entity list \<Rightarrow> game \<Rightarrow> entity list \<times> game" where
  "player_vs_entities [] s = ([], s)"
| "player_vs_entities (en # ens) s =
     (case player_entity en s of (en1, s1) \<Rightarrow>
      case player_vs_entities ens s1 of (ens2, s2) \<Rightarrow> (en1 # ens2, s2))"

definition collide_player :: "game \<Rightarrow> game" where
  "collide_player s =
     (case player_vs_entities (map EnemyE (enemies s) @ map ObstacleE (obstacles s)) s of
        (ens, s') \<Rightarrow> s'\<lparr>enemies := enemies_of ens, obstacles := obstacles_of ens\<rparr>)"

subsection \<open>One frame\<close>

text \<open>
  The update block up to the removal of inactive entities; the two collision passes follow
  it.
\<close>

definition advance :: "real \<Rightarrow> (key \<Rightarrow> bool) \<Rightarrow> game \<Rightarrow> game" where
  "advance d pressed s0 =
     (let s1 = s0\<lparr>player := Player_update d pressed (player s0)\<rparr>;
          s2 = scroll d s1;
          s3 = spawn_enemy s2;
          s4 = spawn_obstacle s3;
          s5 = update_entities d s4
      in remove_inactive s5)"

definition update :: "real \<Rightarrow> (key \<Rightarrow> bool) \<Rightarrow> game \<Rightarrow> game" where
  "update d pressed s0 =
     (let s6 = advance d pressed s0;
          s7 = collide_lasers s6
      in collide_player s7)"

definition frame :: "frame_input \<Rightarrow> game \<Rightarrow> game" where
  "frame inp s =
     (let s1 = handle_events (events inp) s
      in if \<not> game_over s1 then update (dt inp) (pressed_keys inp) s1 else s1)"

text \<open>
  The states the game can be in between two frames: the initial one, and the state after
  a frame that the loop ran, which it does while \<open>running\<close> holds.
\<close>

inductive reachable :: "game \<Rightarrow> bool" where
  start: "reachable (initial_game g)"
| step: "reachable s \<Longrightarrow> running s \<Longrightarrow> reachable (frame inp s)"

fun run_frames :: "frame_input list \<Rightarrow> game \<Rightarrow> game" where
  "run_frames [] s = s"
| "run_frames (inp # inps) s = run_frames inps (frame inp s)"

subsection \<open>A sequence of player updates\<close>

text \<open>
  \<open>Player.update\<close> called once per element of a list of inputs (the time step and the
  pressed keys), in order.
\<close>

fun Player_updates :: "(real \<times> (key \<Rightarrow> bool)) list \<Rightarrow> Player \<Rightarrow> Player" where
  "Player_updates [] p = p"
| "Player_updates ((d, pressed) # rest) p = Player_updates rest (Player_update d pressed p)"

subsection \<open>Vocabulary of the statements\<close>

text \<open>A particle at a given position with a given colour.\<close>

definition particle_at :: "real \<Rightarrow> real \<Rightarrow> real \<Rightarrow> color \<Rightarrow> Particle \<Rightarrow> bool" where
  "particle_at x y z c q \<longleftrightarrow> pt_x q = x \<and> pt_y q = y \<and> pt_z q = z \<and> pt_color q = c"

text \<open>
  The scenario of the specification: one enemy at \<open>(0, 0, 10)\<close> with radius 1.5 and one
  laser at \<open>(0, 0, 10)\<close>, in an otherwise fresh game.
\<close>

definition scenario_enemy :: Enemy where
  "scenario_enemy =
     \<lparr>e_x = 0, e_y = 0, e_z = 10, e_speed = 20, e_active = True, e_radius = 1.5\<rparr>"

definition scenario_game :: game where
  "scenario_game =
     (initial_game (sconst 0.5))\<lparr>lasers := [Laser_init 0 0 10], enemies := [scenario_enemy]\<rparr>"

text \<open>
  The test of the laser pass: the distance of the loop body against the enemy's radius
  plus 1, and that test together with the guard on the two active flags. A pair for which
  \<open>laser_hits\<close> holds when the loop body reaches it collides.
\<close>

definition in_range :: "Laser \<Rightarrow> Enemy \<Rightarrow> bool" where
  "in_range l e \<longleftrightarrow>
     sqrt ((l_x l - e_x e)\<^sup>2 + (l_y l - e_y e)\<^sup>2 + (l_z l - e_z e)\<^sup>2) < e_radius e + 1"

definition laser_hits :: "Laser \<Rightarrow> Enemy \<Rightarrow> bool" where
  "laser_hits l e \<longleftrightarrow> l_active l \<and> e_active e \<and> in_range l e"

text \<open>
  The three statements of the loop body that write the game state when a pair collides:
  the score, the 15 red particles and the 10 yellow ones.
\<close>

definition explosion :: "Enemy \<Rightarrow> game \<Rightarrow> game" where
  "explosion e s =
     spawn_particles 10 (e_x e) (e_y e) (e_z e) YELLOW
       (spawn_particles 15 (e_x e) (e_y e) (e_z e) RED (s\<lparr>score := score s + 100\<rparr>))"

text \<open>
  A state in which the game is over: no health left, a score, an enemy still in its list.
\<close>

definition over_game :: game where
  "over_game =
     (initial_game (sconst 0.5))
       \<lparr>player := Player_init\<lparr>p_hp := 0\<rparr>, enemies := [scenario_enemy], score := 300,
        scroll_offset := 4, game_over := True\<rparr>"

text \<open>A second enemy, one unit behind the scenario's, also in range of its laser.\<close>

definition second_enemy :: Enemy where
  "second_enemy =
     \<lparr>e_x = 0, e_y = 0, e_z = 11, e_speed = 20, e_active = True, e_radius = 1.5\<rparr>"

text \<open>
  The test of the player pass: the guard on the active flag together with the distance of
  the loop body against the entity's radius plus 1.5.
\<close>

definition player_hits :: "Player \<Rightarrow> entity \<Rightarrow> bool" where
  "player_hits p en \<longleftrightarrow>
     entity_active en \<and>
     sqrt ((p_x p - entity_x en)\<^sup>2 + (p_y p - entity_y en)\<^sup>2 + (p_z p - entity_z en)\<^sup>2)
       < entity_radius en + 1.5"

text \<open>
  The statements of the loop body that write the game state when the player collides:
  25 health less, the 20 cyan particles, and the game-over test.
\<close>

definition damage :: "game \<Rightarrow> game" where
  "damage s =
     (let s1 = s\<lparr>player := (player s)\<lparr>p_hp := p_hp (player s) - 25\<rparr>\<rparr>;
          s2 = spawn_particles 20 (p_x (player s1)) (p_y (player s1)) (p_z (player s1))
                 CYAN s1
      in if p_hp (player s2) \<le> 0 then s2\<lparr>game_over := True\<rparr> else s2)"

text \<open>The number of entities of the pass that the player collides with.\<close>

definition player_collisions :: "game \<Rightarrow> nat" where
  "player_collisions s =
     length (filter (player_hits (player s))
               (map EnemyE (enemies s) @ map ObstacleE (obstacles s)))"

text \<open>
  A state with 25 health left, the scenario's enemy at the player's position and an
  obstacle on the ground below the player, out of range.
\<close>

definition near_obstacle :: Obstacle where
  "near_obstacle =
     \<lparr>o_x = 0, o_y = - 8, o_z = 10, o_speed = 30, o_active = True, o_radius = 2\<rparr>"

definition hit_game :: game where
  "hit_game =
     (initial_game (sconst 0.5))
       \<lparr>player := Player_init\<lparr>p_hp := 25\<rparr>, enemies := [scenario_enemy],
        obstacles := [near_obstacle]\<rparr>"

text \<open>
  A run in which five enemies reach the player in the same frame. The enemy that
  \<open>Enemy()\<close> builds from the draws \<open>1/2\<close>, \<open>1/3\<close>, \<open>0\<close> is on the player's axis
  (\<open>x = 0\<close>, \<open>y = 0\<close>) with speed 20; \<open>new_enemy z\<close> is that enemy at depth \<open>z\<close>.
  The five draws of a frame that spawns it and no obstacle are \<open>spawn_draws\<close>: the
  enemy test, the three draws of \<open>Enemy()\<close>, the obstacle test. Five frames of 20 ms
  spawn one such enemy each; then the clock reports a frame of 7 seconds, in which
  nothing spawns. No key is held and no event arrives.
\<close>

definition new_enemy :: "real \<Rightarrow> Enemy" where
  "new_enemy z = \<lparr>e_x = 0, e_y = 0, e_z = z, e_speed = 20, e_active = True, e_radius = 1.5\<rparr>"

definition spawn_draws :: "real list" where
  "spawn_draws = [0, 1 / 2, 1 / 3, 0, 1 / 2]"

definition pile_up_rng :: rng where
  "pile_up_rng =
     spawn_draws @- spawn_draws @- spawn_draws @- spawn_draws @- spawn_draws @- sconst (1 / 2)"

definition spawn_frame :: frame_input where
  "spawn_frame = \<lparr>dt = 1 / 50, events = [], pressed_keys = (\<lambda>k. False)\<rparr>"

definition stall_frame :: frame_input where
  "stall_frame = \<lparr>dt = 7, events = [], pressed_keys = (\<lambda>k. False)\<rparr>"

definition pile_up :: game where
  "pile_up =
     run_frames [spawn_frame, spawn_frame, spawn_frame, spawn_frame, spawn_frame, stall_frame]
       (initial_game pile_up_rng)"

text \<open>
  The states of that run before its last frame: the initial player, no laser, no
  obstacle, the enemies \<open>new_enemy z\<close> for the depths \<open>zs\<close>, the generator at \<open>g\<close>,
  and the game not over.
\<close>

definition calm :: "game \<Rightarrow> real list \<Rightarrow> rng \<Rightarrow> bool" where
  "calm s zs g \<longleftrightarrow>
     player s = Player_init \<and> lasers s = [] \<and> obstacles s = [] \<and>
     enemies s = map new_enemy zs \<and> rng_state s = g \<and> \<not> game_over s"

text \<open>
  Two lasers on the player's axis, at depths 13 and 16, and a list of enemies, in an
  otherwise fresh game. With the enemies \<open>new_enemy 12\<close> and \<open>new_enemy 14\<close> the laser
  at 13 is in range of both, the laser at 16 of the one at 14 only, and the player (at
  depth 10) of the one at 12 only.
\<close>

definition near_laser :: Laser where "near_laser = Laser_init 0 0 13"
definition far_laser :: Laser where "far_laser = Laser_init 0 0 16"

definition crossfire :: "Enemy list \<Rightarrow> game" where
  "crossfire es =
     (initial_game (sconst 0.5))\<lparr>lasers := [near_laser, far_laser], enemies := es\<rparr>"

section \<open>Projection\<close>

lemma floor_log2: "2 powi e \<le> x \<Longrightarrow> x < 2 powi (e + 1) \<Longrightarrow> \<lfloor>log 2 x\<rfloor> = e"
proof -
  assume a: "2 powi e \<le> x" "x < 2 powi (e + 1)"
  have "(0::real) < 2 powi e" by simp
  with a(1) have p: "0 < x" by linarith
  have "(2::real) powr real_of_int e = 2 powi e"
    by (rule powr_real_of_int') simp_all
  moreover have "(2::real) powr real_of_int (e + 1) = 2 powi (e + 1)"
    by (rule powr_real_of_int') simp_all
  ultimately have "2 powr real_of_int e \<le> x \<and> x < 2 powr real_of_int (e + 1)"
    using a by simp
  with floor_log_eq_powr_iff [of x 2 e] p show ?thesis by simp
qed

lemma fl_eval:
  assumes "2 powi e \<le> \<bar>x\<bar>" and "\<bar>x\<bar> < 2 powi (e + 1)" and "- 1022 \<le> e"
  shows "fl x =
     (if 2 ^ 1024 \<le> \<bar>real_of_int (round_even (x / 2 powi (e - 52))) * 2 powi (e - 52)\<bar>
      then (if 0 < x then PosInf else NegInf)
      else Finite (of_int (round_even (x / 2 powi (e - 52))) * 2 powi (e - 52)))"
proof -
  from floor_log2 [OF assms(1,2)] assms(3) have "ulp x = 2 powi (e - 52)"
    by (simp add: ulp_def max_def)
  then show ?thesis by (simp add: fl_def Let_def)
qed

lemma fl_400: "fl 400 = Finite 400"
  using fl_eval [of 8 400] by (simp add: round_even_def)

lemma fl_300: "fl 300 = Finite 300"
  using fl_eval [of 8 300] by (simp add: round_even_def)

lemma fl_tenth: "fl 0.1 = Finite (3602879701896397 / 36028797018963968)"
  using fl_eval [of "- 4" "0.1"] by (simp add: round_even_def)

lemma fl_0: "fl 0 = Finite 0"
  by (simp add: fl_def round_even_def)

lemma fl_400_22: "fl (400 / 22) = Finite (5117726849284655 / 281474976710656)"
  using fl_eval [of 4 "400 / 22"] by (simp add: round_even_def)

lemma fl_m11: "fl (- 11 * (5117726849284655 / 281474976710656))
    = Finite (- (7036874417766401 / 35184372088832))"
  using fl_eval [of 7 "- 11 * (5117726849284655 / 281474976710656)"]
  by (simp add: round_even_def)

lemma fl_200: "fl (400 + - (7036874417766401 / 35184372088832))
    = Finite (7036874417766399 / 35184372088832)"
  using fl_eval [of 7 "400 + - (7036874417766401 / 35184372088832)"]
  by (simp add: round_even_def)

lemma fl_400_3: "fl (400 / 3) = Finite (4691249611844267 / 35184372088832)"
  using fl_eval [of 7 "400 / 3"] by (simp add: round_even_def)

lemma fl_m10: "fl (- 10 * (4691249611844267 / 35184372088832))
    = Finite (- (2932031007402667 / 2199023255552))"
  using fl_eval [of 10 "- 10 * (4691249611844267 / 35184372088832)"]
  by (simp add: round_even_def)

lemma fl_m933: "fl (400 + - (2932031007402667 / 2199023255552))
    = Finite (- (2052421705181867 / 2199023255552))"
  using fl_eval [of 9 "400 + - (2932031007402667 / 2199023255552)"]
  by (simp add: round_even_def)

lemma fl_133: "fl (1 * (4691249611844267 / 35184372088832))
    = Finite (4691249611844267 / 35184372088832)"
  using fl_eval [of 7 "1 * (4691249611844267 / 35184372088832)"]
  by (simp add: round_even_def)

lemma fl_166: "fl (300 - 4691249611844267 / 35184372088832)
    = Finite (5864062014805333 / 35184372088832)"
  using fl_eval [of 7 "300 - 4691249611844267 / 35184372088832"]
  by (simp add: round_even_def)

lemma fl_400_1: "fl (400 / 1) = Finite 400"
  by (simp add: fl_400)

lemma fl_big: "fl (2 ^ 1023 * 400) = PosInf"
  using fl_eval [of 1031 "2 ^ 1023 * 400"] by (simp add: round_even_def)

lemma trunc_sgn: "real_of_int (trunc r) = sgn r * real_of_int \<lfloor>\<bar>r\<bar>\<rfloor>"
proof (cases "0 \<le> r")
  case True
  then show ?thesis by (cases "r = 0") (simp_all add: trunc_def)
next
  case False
  then have "r < 0" by simp
  then show ?thesis by (simp add: trunc_def ceiling_def)
qed

lemma float_truediv_FOV:
  "\<not> float_lt z (fl 0.1) \<Longrightarrow>
     float_truediv FOV z =
       Inr (case z of Finite c \<Rightarrow> fl (400 / c) | PosInf \<Rightarrow> Finite 0 | NegInf \<Rightarrow> NaN
            | NaN \<Rightarrow> NaN)"
  by (cases z) (auto simp: FOV_def fl_400 fl_tenth)

lemma project_None: "(project x y z = Inr None) = float_lt z (fl 0.1)"
  by (auto simp: project_def Let_def split: sum.splits)

lemma project_Some:
  assumes "\<not> float_lt z (fl 0.1)" and "float_truediv FOV z = Inr factor"
  shows "project x y z =
      (case py_int (float_add (Finite 400) (float_mul x factor)) of
         Inl err \<Rightarrow> Inl err
       | Inr sx \<Rightarrow>
           (case py_int (float_sub (Finite 300) (float_mul y factor)) of
              Inl err \<Rightarrow> Inl err
            | Inr sy \<Rightarrow> Inr (Some (sx, sy))))"
  using assms by (simp add: project_def Let_def WIDTH_def HEIGHT_def fl_400 fl_300)

lemma project_minus_11: "project (Finite (- 11)) (Finite 0) (Finite 22) = Inr (Some (199, 300))"
proof -
  have z: "\<not> float_lt (Finite 22) (fl 0.1)" by (simp add: fl_tenth)
  have f: "float_truediv FOV (Finite 22) = Inr (Finite (5117726849284655 / 281474976710656))"
    by (simp add: FOV_def fl_400 fl_400_22 [simplified])
  have px: "float_add (Finite 400) (float_mul (Finite (- 11))
      (Finite (5117726849284655 / 281474976710656))) = Finite (7036874417766399 / 35184372088832)"
    by (simp only: float_mul.simps float_add.simps fl_m11 fl_200)
  have py: "float_sub (Finite 300) (float_mul (Finite 0)
      (Finite (5117726849284655 / 281474976710656))) = Finite 300"
    by (simp add: float_sub_def fl_0 fl_300)
  show ?thesis
    unfolding project_Some [OF z f] px py by (simp add: trunc_def)
qed

lemma project_overflow: "project (Finite (2 ^ 1023)) (Finite 0) (Finite 1) = Inl OverflowError"
proof -
  have z: "\<not> float_lt (Finite 1) (fl 0.1)" by (simp add: fl_tenth)
  have f: "float_truediv FOV (Finite 1) = Inr (Finite 400)"
    by (simp add: FOV_def fl_400)
  have px: "float_add (Finite 400) (float_mul (Finite (2 ^ 1023)) (Finite 400)) = PosInf"
    by (simp only: float_mul.simps float_add.simps fl_big)
  show ?thesis
    unfolding project_Some [OF z f] px by simp
qed

lemma project_no_zero_division: "project x y z \<noteq> Inl ZeroDivisionError"
proof (cases "float_lt z (fl 0.1)")
  case True
  then show ?thesis by (simp add: project_def)
next
  case False
  define factor where "factor = (case z of Finite c \<Rightarrow> fl (400 / c) | PosInf \<Rightarrow> Finite 0
      | NegInf \<Rightarrow> NaN | NaN \<Rightarrow> NaN)"
  have f: "float_truediv FOV z = Inr factor"
    unfolding factor_def by (rule float_truediv_FOV [OF False])
  show ?thesis
    unfolding project_Some [OF False f]
    by (cases "float_add (Finite 400) (float_mul x factor)";
        cases "float_sub (Finite 300) (float_mul y factor)") simp_all
qed

text \<open>
  The result of \<open>project\<close> is not the truncation of the exact value of
  \<open>WIDTH/2 + x * (FOV/z)\<close>. For \<open>x = -11\<close>, \<open>z = 22\<close> the exact value is 200, but
  \<open>400 / 22\<close> rounds up, \<open>-11\<close> times it rounds to the double below \<open>-200\<close>, and the
  sum is the double below 200: the result is 199. And \<open>project\<close> does not return for
  every \<open>z \<ge> 0.1\<close>: for \<open>x = 2 ^ 1023\<close> and \<open>z = 1\<close> the product overflows and
  \<open>int\<close> raises \<open>OverflowError\<close>.
\<close>

theorem project_rounds:
  "project (Finite (- 11)) (Finite 0) (Finite 22) = Inr (Some (199, 300)) \<and>
   trunc (real_of_int WIDTH / 2 + (- 11) * (400 / 22)) = 200 \<and>
   project (Finite (2 ^ 1023)) (Finite 0) (Finite 1) = Inl OverflowError"
  using project_minus_11 project_overflow by (simp add: WIDTH_def trunc_def)

text \<open>
  Claim C1, as it holds. For all floats \<open>x\<close>, \<open>y\<close>, \<open>z\<close>, \<open>project\<close> returns
  \<open>None\<close> exactly when \<open>z < 0.1\<close> as floats (\<open>0.1\<close> is the double
  \<open>3602879701896397 / 2 ^ 55\<close>; the test is false for NaN), and it never divides by
  zero. Otherwise \<open>FOV / z\<close> is a float \<open>factor\<close>, and the result is that of \<open>int\<close> on
  the floats \<open>400.0 + x * factor\<close> and \<open>300.0 - y * factor\<close>, the first error winning.
  For finite arguments: when the roundings of \<open>400 / z\<close>, \<open>x * factor\<close>,
  \<open>400 + x * factor\<close>, \<open>y * factor\<close> and \<open>300 - y * factor\<close> are all finite, the
  result is the pair of the two rounded sums, each truncated toward zero: the integer
  with the sign of the float and the floor of its absolute value.
\<close>

theorem project_spec:
  "(project x y z = Inr None \<longleftrightarrow> float_lt z (fl 0.1)) \<and>
   fl 0.1 = Finite (3602879701896397 / 36028797018963968) \<and>
   project x y z \<noteq> Inl ZeroDivisionError \<and>
   (\<not> float_lt z (fl 0.1) \<longrightarrow>
      (\<exists>factor. float_truediv FOV z = Inr factor \<and>
         project x y z =
           (case py_int (float_add (Finite 400) (float_mul x factor)) of
              Inl err \<Rightarrow> Inl err
            | Inr sx \<Rightarrow>
                (case py_int (float_sub (Finite 300) (float_mul y factor)) of
                   Inl err \<Rightarrow> Inl err
                 | Inr sy \<Rightarrow> Inr (Some (sx, sy)))))) \<and>
   (\<not> c < 3602879701896397 / 36028797018963968 \<and> fl (400 / c) = Finite f \<and>
    fl (a * f) = Finite p \<and> fl (400 + p) = Finite u \<and>
    fl (b * f) = Finite q \<and> fl (300 - q) = Finite v \<longrightarrow>
      project (Finite a) (Finite b) (Finite c) = Inr (Some (trunc u, trunc v))) \<and>
   real_of_int (trunc r) = sgn r * real_of_int \<lfloor>\<bar>r\<bar>\<rfloor>"
proof -
  have one: "project x y z = Inr None \<longleftrightarrow> float_lt z (fl 0.1)"
    by (rule project_None)
  have two: "\<not> float_lt z (fl 0.1) \<longrightarrow>
      (\<exists>factor. float_truediv FOV z = Inr factor \<and>
         project x y z =
           (case py_int (float_add (Finite 400) (float_mul x factor)) of
              Inl err \<Rightarrow> Inl err
            | Inr sx \<Rightarrow>
                (case py_int (float_sub (Finite 300) (float_mul y factor)) of
                   Inl err \<Rightarrow> Inl err
                 | Inr sy \<Rightarrow> Inr (Some (sx, sy)))))"
  proof
    assume n: "\<not> float_lt z (fl 0.1)"
    from float_truediv_FOV [OF n] obtain factor where f: "float_truediv FOV z = Inr factor"
      by blast
    from project_Some [OF n f] f
    show "\<exists>factor. float_truediv FOV z = Inr factor \<and>
         project x y z =
           (case py_int (float_add (Finite 400) (float_mul x factor)) of
              Inl err \<Rightarrow> Inl err
            | Inr sx \<Rightarrow>
                (case py_int (float_sub (Finite 300) (float_mul y factor)) of
                   Inl err \<Rightarrow> Inl err
                 | Inr sy \<Rightarrow> Inr (Some (sx, sy))))"
      by blast
  qed
  have three: "\<not> c < 3602879701896397 / 36028797018963968 \<and> fl (400 / c) = Finite f \<and>
    fl (a * f) = Finite p \<and> fl (400 + p) = Finite u \<and>
    fl (b * f) = Finite q \<and> fl (300 - q) = Finite v \<longrightarrow>
      project (Finite a) (Finite b) (Finite c) = Inr (Some (trunc u, trunc v))"
  proof
    assume h: "\<not> c < 3602879701896397 / 36028797018963968 \<and> fl (400 / c) = Finite f \<and>
      fl (a * f) = Finite p \<and> fl (400 + p) = Finite u \<and>
      fl (b * f) = Finite q \<and> fl (300 - q) = Finite v"
    then have n: "\<not> float_lt (Finite c) (fl 0.1)" by (simp add: fl_tenth)
    from h have "c \<noteq> 0" by auto
    with h have t: "float_truediv FOV (Finite c) = Inr (Finite f)"
      by (simp add: FOV_def fl_400)
    have px: "float_add (Finite 400) (float_mul (Finite a) (Finite f)) = Finite u"
      using h by simp
    have py: "float_sub (Finite 300) (float_mul (Finite b) (Finite f)) = Finite v"
      using h by (simp add: float_sub_def)
    show "project (Finite a) (Finite b) (Finite c) = Inr (Some (trunc u, trunc v))"
      unfolding project_Some [OF n t] px py by simp
  qed
  from one two three fl_tenth project_no_zero_division [of x y z] trunc_sgn [of r]
  show ?thesis by blast
qed

text \<open>
  \<open>project(-10.0, 1.0, 3.0)\<close> is \<open>(-933, 166)\<close>, and \<open>project(5.0, 5.0, 0.0625)\<close>
  is \<open>None\<close>.
\<close>

theorem project_spec_witness:
  "\<not> float_lt (Finite 3) (fl 0.1) \<and>
   fl (400 / 3) = Finite (4691249611844267 / 35184372088832) \<and>
   project (Finite (- 10)) (Finite 1) (Finite 3) = Inr (Some (- 933, 166)) \<and>
   float_lt (Finite (1 / 16)) (fl 0.1) \<and>
   project (Finite 5) (Finite 5) (Finite (1 / 16)) = Inr None"
proof -
  have a: "\<not> (3::real) < 3602879701896397 / 36028797018963968" by simp
  have b: "float_lt (Finite (1 / 16)) (fl 0.1)" by (simp add: fl_tenth)
  have c: "\<not> float_lt (Finite 3) (fl 0.1)" by (simp add: fl_tenth)
  have t: "trunc (- (2052421705181867 / 2199023255552)) = - 933"
    "trunc (5864062014805333 / 35184372088832) = 166"
    by (simp_all add: trunc_def)
  from project_spec [of "Finite (- 10)" "Finite 1" "Finite 3" 3
      "4691249611844267 / 35184372088832" "- 10" "- (2932031007402667 / 2199023255552)"
      "- (2052421705181867 / 2199023255552)" 1 "4691249611844267 / 35184372088832"
      "5864062014805333 / 35184372088832" 0]
    a fl_400_3 fl_m10 fl_m933 fl_133 fl_166
  have "project (Finite (- 10)) (Finite 1) (Finite 3)
      = Inr (Some (trunc (- (2052421705181867 / 2199023255552)),
                   trunc (5864062014805333 / 35184372088832)))"
    by simp
  then have p: "project (Finite (- 10)) (Finite 1) (Finite 3) = Inr (Some (- 933, 166))"
    unfolding t .
  from project_spec [of "Finite 5" "Finite 5" "Finite (1 / 16)" 3 0 0 0 0 0 0 0 0] b
  have "project (Finite 5) (Finite 5) (Finite (1 / 16)) = Inr None" by blast
  with b c p fl_400_3 show ?thesis by simp
qed

section \<open>Player bounds\<close>

text \<open>
  The bounds hold whatever the first four assignments of \<open>Player.update\<close> computed:
  the clamping comes after them.
\<close>

lemma Let_any: "(\<And>x. P (f x)) \<Longrightarrow> P (Let a f)"
  by simp

lemma Player_update_x:
  "- 15 \<le> p_x (Player_update d pressed p) \<and> p_x (Player_update d pressed p) \<le> 15"
  unfolding Player_update_def
  apply (rule Let_any [where P = "\<lambda>r. - 15 \<le> p_x r \<and> p_x r \<le> 15"])
  apply (rule Let_any [where P = "\<lambda>r. - 15 \<le> p_x r \<and> p_x r \<le> 15"])
  apply (rule Let_any [where P = "\<lambda>r. - 15 \<le> p_x r \<and> p_x r \<le> 15"])
  apply (rule Let_any [where P = "\<lambda>r. - 15 \<le> p_x r \<and> p_x r \<le> 15"])
  apply (simp add: Let_def)
  done

lemma Player_update_y:
  "- 8 \<le> p_y (Player_update d pressed p) \<and> p_y (Player_update d pressed p) \<le> 8"
  unfolding Player_update_def
  apply (rule Let_any [where P = "\<lambda>r. - 8 \<le> p_y r \<and> p_y r \<le> 8"])
  apply (rule Let_any [where P = "\<lambda>r. - 8 \<le> p_y r \<and> p_y r \<le> 8"])
  apply (rule Let_any [where P = "\<lambda>r. - 8 \<le> p_y r \<and> p_y r \<le> 8"])
  apply (rule Let_any [where P = "\<lambda>r. - 8 \<le> p_y r \<and> p_y r \<le> 8"])
  apply (simp add: Let_def)
  done

lemma Player_updates_bounds:
  "- 15 \<le> p_x p \<and> p_x p \<le> 15 \<and> - 8 \<le> p_y p \<and> p_y p \<le> 8 \<Longrightarrow>
   - 15 \<le> p_x (Player_updates inps p) \<and> p_x (Player_updates inps p) \<le> 15 \<and>
   - 8 \<le> p_y (Player_updates inps p) \<and> p_y (Player_updates inps p) \<le> 8"
proof (induction inps arbitrary: p)
  case Nil
  then show ?case by simp
next
  case (Cons a inps)
  obtain d pressed where a: "a = (d, pressed)" by (cases a)
  show ?case unfolding a Player_updates.simps
    by (rule Cons.IH) (simp add: Player_update_x Player_update_y)
qed

text \<open>
  Claim C4. After every call to \<open>Player.update\<close>, from any player state and for any
  time step and any pressed keys, \<open>x\<close> is in \<open>[-15, 15]\<close> and \<open>y\<close> is in \<open>[-8, 8]\<close>;
  so it is after any finite sequence of updates from the initial player.
\<close>

theorem player_bounds:
  "- 15 \<le> p_x (Player_update d pressed p) \<and> p_x (Player_update d pressed p) \<le> 15 \<and>
   - 8 \<le> p_y (Player_update d pressed p) \<and> p_y (Player_update d pressed p) \<le> 8 \<and>
   - 15 \<le> p_x (Player_updates inps Player_init) \<and>
   p_x (Player_updates inps Player_init) \<le> 15 \<and>
   - 8 \<le> p_y (Player_updates inps Player_init) \<and>
   p_y (Player_updates inps Player_init) \<le> 8"
proof -
  have "- 15 \<le> p_x Player_init \<and> p_x Player_init \<le> 15 \<and>
        - 8 \<le> p_y Player_init \<and> p_y Player_init \<le> 8"
    by (simp add: Player_init_def)
  from Player_updates_bounds [OF this] show ?thesis
    by (simp add: Player_update_x Player_update_y)
qed

text \<open>
  Two frames of one second with right and up held, from the start, reach both upper
  bounds; a hundred seconds with left held stop at the lower one.
\<close>

theorem player_bounds_witness:
  "p_x (Player_updates [(1, \<lambda>k. k = K_RIGHT \<or> k = K_UP), (1, \<lambda>k. k = K_d \<or> k = K_w)]
          Player_init) = 15 \<and>
   p_y (Player_updates [(1, \<lambda>k. k = K_RIGHT \<or> k = K_UP), (1, \<lambda>k. k = K_d \<or> k = K_w)]
          Player_init) = 8 \<and>
   p_x (Player_update 100 (\<lambda>k. k = K_LEFT) Player_init) = - 15"
  using player_bounds [of 100 "\<lambda>k. k = K_LEFT" Player_init
      "[(1, \<lambda>k. k = K_RIGHT \<or> k = K_UP), (1, \<lambda>k. k = K_d \<or> k = K_w)]"]
  by (simp add: Player_update_def Player_init_def Let_def)

section \<open>Entity expiry\<close>

text \<open>
  Claim C5. For every \<open>dt \<ge> 0\<close>, \<open>update\<close> integrates the depth, and it turns the
  active flag of an active entity to false exactly when the new depth is beyond the
  threshold: above 150 for a laser, below 0 for an enemy or an obstacle. At a depth equal
  to the threshold the entity stays active.
\<close>

theorem entity_expiry:
  "0 \<le> d \<Longrightarrow>
   l_z (Laser_update d l) = l_z l + l_speed l * d \<and>
   e_z (Enemy_update d e) = e_z e - e_speed e * d \<and>
   o_z (Obstacle_update d ob) = o_z ob - o_speed ob * d \<and>
   (l_active l \<longrightarrow> (\<not> l_active (Laser_update d l) \<longleftrightarrow> l_z (Laser_update d l) > 150)) \<and>
   (e_active e \<longrightarrow> (\<not> e_active (Enemy_update d e) \<longleftrightarrow> e_z (Enemy_update d e) < 0)) \<and>
   (o_active ob \<longrightarrow>
      (\<not> o_active (Obstacle_update d ob) \<longleftrightarrow> o_z (Obstacle_update d ob) < 0)) \<and>
   (l_active l \<and> l_z (Laser_update d l) = 150 \<longrightarrow> l_active (Laser_update d l)) \<and>
   (e_active e \<and> e_z (Enemy_update d e) = 0 \<longrightarrow> e_active (Enemy_update d e)) \<and>
   (o_active ob \<and> o_z (Obstacle_update d ob) = 0 \<longrightarrow> o_active (Obstacle_update d ob))"
  by (simp add: Laser_update_def Enemy_update_def Obstacle_update_def Let_def)

text \<open>
  Five seconds: a laser from depth 100 is at 600 and inactive; a new enemy of speed 20 is
  at 50 and active; a new obstacle (speed 30) is at 0, the threshold, and active.
\<close>

theorem entity_expiry_witness:
  "(0::real) \<le> 5 \<and>
   l_active (Laser_init 0 0 100) \<and> l_z (Laser_update 5 (Laser_init 0 0 100)) = 600 \<and>
   \<not> l_active (Laser_update 5 (Laser_init 0 0 100)) \<and>
   e_active (fst (Enemy_init (sconst 0))) \<and>
   e_z (Enemy_update 5 (fst (Enemy_init (sconst 0)))) = 50 \<and>
   e_active (Enemy_update 5 (fst (Enemy_init (sconst 0)))) \<and>
   o_active (fst (Obstacle_init (sconst 0))) \<and>
   o_z (Obstacle_update 5 (fst (Obstacle_init (sconst 0)))) = 0 \<and>
   o_active (Obstacle_update 5 (fst (Obstacle_init (sconst 0))))"
  using entity_expiry [of 5 "Laser_init 0 0 100" "fst (Enemy_init (sconst 0))"
      "fst (Obstacle_init (sconst 0))"]
  by (simp add: Laser_update_def Enemy_update_def Obstacle_update_def Let_def
      Laser_init_def Enemy_init_def Obstacle_init_def random_uniform_def random_random_def)

section \<open>Particles\<close>

lemma Particle_init_fields:
  "Particle_init x y z c g = (q, g') \<Longrightarrow>
     pt_x q = x \<and> pt_y q = y \<and> pt_z q = z \<and> pt_color q = c \<and> pt_life q = 1"
  by (auto simp: Particle_init_def split: prod.splits)

lemma spawn_particles_frame:
  "player (spawn_particles n x y z c s) = player s \<and>
   lasers (spawn_particles n x y z c s) = lasers s \<and>
   enemies (spawn_particles n x y z c s) = enemies s \<and>
   obstacles (spawn_particles n x y z c s) = obstacles s \<and>
   score (spawn_particles n x y z c s) = score s \<and>
   world_speed (spawn_particles n x y z c s) = world_speed s \<and>
   scroll_offset (spawn_particles n x y z c s) = scroll_offset s \<and>
   running (spawn_particles n x y z c s) = running s \<and>
   game_over (spawn_particles n x y z c s) = game_over s"
  by (induction n x y z c s rule: spawn_particles.induct) (auto split: prod.splits)

lemma spawn_particles_particles:
  "\<exists>qs. particles (spawn_particles n x y z c s) = particles s @ qs \<and> length qs = n \<and>
        list_all (particle_at x y z c) qs"
proof (induction n x y z c s rule: spawn_particles.induct)
  case (1 x y z c s)
  then show ?case by simp
next
  case (2 n x y z c s)
  obtain q g where qg: "Particle_init x y z c (rng_state s) = (q, g)"
    by (cases "Particle_init x y z c (rng_state s)")
  from 2 [OF qg [symmetric]] obtain qs where
    qs: "particles (spawn_particles n x y z c (s\<lparr>particles := particles s @ [q], rng_state := g\<rparr>))
         = (particles s @ [q]) @ qs" "length qs = n" "list_all (particle_at x y z c) qs"
    by auto
  have "particle_at x y z c q"
    using Particle_init_fields [OF qg] by (simp add: particle_at_def)
  with qs qg show ?case
    by (intro exI [of _ "q # qs"]) simp
qed

section \<open>Lasers versus enemies\<close>

lemma laser_enemy_eq:
  "laser_enemy l e s =
     (if laser_hits l e then (l\<lparr>l_active := False\<rparr>, e\<lparr>e_active := False\<rparr>, explosion e s)
      else (l, e, s))"
  by (simp add: laser_enemy_def laser_hits_def in_range_def explosion_def Let_def)

lemma explosion_frame:
  "player (explosion e s) = player s \<and> score (explosion e s) = score s + 100 \<and>
   game_over (explosion e s) = game_over s \<and> running (explosion e s) = running s \<and>
   obstacles (explosion e s) = obstacles s \<and>
   scroll_offset (explosion e s) = scroll_offset s \<and>
   world_speed (explosion e s) = world_speed s"
  by (simp add: explosion_def spawn_particles_frame)

lemma explosion_particles:
  "\<exists>reds yellows. particles (explosion e s) = particles s @ reds @ yellows \<and>
      length reds = 15 \<and> length yellows = 10 \<and>
      list_all (particle_at (e_x e) (e_y e) (e_z e) RED) reds \<and>
      list_all (particle_at (e_x e) (e_y e) (e_z e) YELLOW) yellows"
proof -
  define s1 where "s1 = s\<lparr>score := score s + 100\<rparr>"
  define s2 where "s2 = spawn_particles 15 (e_x e) (e_y e) (e_z e) RED s1"
  obtain reds where reds: "particles s2 = particles s1 @ reds" "length reds = 15"
    "list_all (particle_at (e_x e) (e_y e) (e_z e) RED) reds"
    unfolding s2_def using spawn_particles_particles by blast
  obtain yellows where yellows:
    "particles (explosion e s) = particles s2 @ yellows" "length yellows = 10"
    "list_all (particle_at (e_x e) (e_y e) (e_z e) YELLOW) yellows"
    unfolding explosion_def s2_def s1_def using spawn_particles_particles by blast
  have "particles (explosion e s) = particles s @ reds @ yellows"
    using reds yellows by (simp add: s1_def)
  with reds yellows show ?thesis by blast
qed

lemma laser_vs_enemies_inactive:
  "\<not> l_active l \<Longrightarrow> laser_vs_enemies l es s = (l, es, s)"
  by (induction es) (simp_all add: laser_enemy_eq laser_hits_def)

lemma laser_vs_enemies_miss:
  "\<forall>e\<in>set es. \<not> laser_hits l e \<Longrightarrow> laser_vs_enemies l es s = (l, es, s)"
  by (induction es) (simp_all add: laser_enemy_eq)

lemma laser_vs_enemies_hit:
  "\<forall>x\<in>set es1. \<not> laser_hits l x \<Longrightarrow> laser_hits l e \<Longrightarrow>
   laser_vs_enemies l (es1 @ e # es2) s =
     (l\<lparr>l_active := False\<rparr>, es1 @ e\<lparr>e_active := False\<rparr> # es2, explosion e s)"
  by (induction es1) (simp_all add: laser_enemy_eq laser_vs_enemies_inactive)

lemma laser_vs_enemies_cases:
  "laser_vs_enemies l es s = (l, es, s) \<and> (\<forall>e\<in>set es. \<not> laser_hits l e) \<or>
   (\<exists>es1 e es2. es = es1 @ e # es2 \<and> (\<forall>x\<in>set es1. \<not> laser_hits l x) \<and> laser_hits l e \<and>
      laser_vs_enemies l es s =
        (l\<lparr>l_active := False\<rparr>, es1 @ e\<lparr>e_active := False\<rparr> # es2, explosion e s))"
proof (cases "\<exists>e\<in>set es. laser_hits l e")
  case True
  from split_list_first_prop [OF this] obtain es1 e es2 where
    "es = es1 @ e # es2" "laser_hits l e" "\<forall>x\<in>set es1. \<not> laser_hits l x" by blast
  with laser_vs_enemies_hit [of es1 l e es2 s] show ?thesis by blast
next
  case False
  with laser_vs_enemies_miss [of es l s] show ?thesis by blast
qed

lemma lasers_vs_enemies_length:
  "lasers_vs_enemies ls es s = (ls', es', s') \<Longrightarrow>
     length ls' = length ls \<and> length es' = length es"
proof (induction ls arbitrary: es s ls' es' s')
  case Nil
  then show ?case by simp
next
  case (Cons l ls)
  obtain l1 es1 s1 where i: "laser_vs_enemies l es s = (l1, es1, s1)"
    by (cases "laser_vs_enemies l es s")
  obtain ls2 es2 s2 where o: "lasers_vs_enemies ls es1 s1 = (ls2, es2, s2)"
    by (cases "lasers_vs_enemies ls es1 s1")
  from Cons.prems i o have eq: "ls' = l1 # ls2" "es' = es2" by simp_all
  from laser_vs_enemies_cases [of l es s] i have "length es1 = length es" by auto
  with Cons.IH [OF o] show ?case unfolding eq by simp
qed

text \<open>An object after a pass is the object before it, or that object deactivated.\<close>

lemma lasers_vs_enemies_same:
  "lasers_vs_enemies ls es s = (ls', es', s') \<Longrightarrow>
     list_all2 (\<lambda>l l'. l' = l \<or> l' = l\<lparr>l_active := False\<rparr>) ls ls' \<and>
     list_all2 (\<lambda>e e'. e' = e \<or> e' = e\<lparr>e_active := False\<rparr>) es es'"
proof (induction ls arbitrary: es s ls' es' s')
  case Nil
  then show ?case by (simp add: list_all2_same)
next
  case (Cons l ls)
  obtain l1 es1 s1 where i: "laser_vs_enemies l es s = (l1, es1, s1)"
    by (cases "laser_vs_enemies l es s")
  obtain ls2 es2 s2 where o: "lasers_vs_enemies ls es1 s1 = (ls2, es2, s2)"
    by (cases "lasers_vs_enemies ls es1 s1")
  from Cons.prems i o have eq: "ls' = l1 # ls2" "es' = es2" by simp_all
  from laser_vs_enemies_cases [of l es s] i
  have a: "l1 = l \<or> l1 = l\<lparr>l_active := False\<rparr>"
    and b: "list_all2 (\<lambda>e e'. e' = e \<or> e' = e\<lparr>e_active := False\<rparr>) es es1"
    by (auto simp: list_all2_same list_all2_appendI)
  from Cons.IH [OF o]
  have c: "list_all2 (\<lambda>l l'. l' = l \<or> l' = l\<lparr>l_active := False\<rparr>) ls ls2"
    and d: "list_all2 (\<lambda>e e'. e' = e \<or> e' = e\<lparr>e_active := False\<rparr>) es1 es2"
    by simp_all
  have "list_all2 (\<lambda>e e'. e' = e \<or> e' = e\<lparr>e_active := False\<rparr>) es es2"
    by (rule list_all2_trans [OF _ b d]) auto
  with a c show ?case unfolding eq by simp
qed

lemma laser_hits_off:
  "e' = e \<or> e' = e\<lparr>e_active := False\<rparr> \<Longrightarrow> laser_hits l e' \<Longrightarrow> laser_hits l e"
  by (auto simp: laser_hits_def)

lemma laser_hits_inactive: "\<not> laser_hits (l\<lparr>l_active := False\<rparr>) e"
  by (simp add: laser_hits_def)

lemma laser_vs_enemies_done:
  "laser_vs_enemies l es s = (l1, es1, s1) \<Longrightarrow> \<forall>e1\<in>set es1. \<not> laser_hits l1 e1"
proof -
  assume i: "laser_vs_enemies l es s = (l1, es1, s1)"
  from laser_vs_enemies_cases [of l es s]
  show ?thesis
  proof
    assume "laser_vs_enemies l es s = (l, es, s) \<and> (\<forall>e\<in>set es. \<not> laser_hits l e)"
    with i show ?thesis by simp
  next
    assume "\<exists>a e b. es = a @ e # b \<and> (\<forall>x\<in>set a. \<not> laser_hits l x) \<and> laser_hits l e \<and>
      laser_vs_enemies l es s =
        (l\<lparr>l_active := False\<rparr>, a @ e\<lparr>e_active := False\<rparr> # b, explosion e s)"
    then obtain a e b where
      "laser_vs_enemies l es s =
        (l\<lparr>l_active := False\<rparr>, a @ e\<lparr>e_active := False\<rparr> # b, explosion e s)"
      by blast
    with i have "l1 = l\<lparr>l_active := False\<rparr>" by simp
    then show ?thesis by (simp add: laser_hits_inactive)
  qed
qed

lemma lasers_vs_enemies_done:
  "lasers_vs_enemies ls es s = (ls', es', s') \<Longrightarrow>
     \<forall>l'\<in>set ls'. \<forall>e'\<in>set es'. \<not> laser_hits l' e'"
proof (induction ls arbitrary: es s ls' es' s')
  case Nil
  then show ?case by simp
next
  case (Cons l ls)
  obtain l1 es1 s1 where i: "laser_vs_enemies l es s = (l1, es1, s1)"
    by (cases "laser_vs_enemies l es s")
  obtain ls2 es2 s2 where o: "lasers_vs_enemies ls es1 s1 = (ls2, es2, s2)"
    by (cases "lasers_vs_enemies ls es1 s1")
  from Cons.prems i o have eq: "ls' = l1 # ls2" "es' = es2" by simp_all
  note a = laser_vs_enemies_done [OF i]
  from lasers_vs_enemies_same [OF o]
  have d: "list_all2 (\<lambda>e e'. e' = e \<or> e' = e\<lparr>e_active := False\<rparr>) es1 es2" by simp
  have "\<not> laser_hits l1 e'" if "e' \<in> set es2" for e'
  proof -
    from that obtain j where j: "j < length es2" "e' = es2 ! j"
      by (auto simp: in_set_conv_nth)
    from d have len: "length es1 = length es2" by (rule list_all2_lengthD)
    from d j(1) have "es2 ! j = es1 ! j \<or> es2 ! j = (es1 ! j)\<lparr>e_active := False\<rparr>"
      by (simp add: list_all2_conv_all_nth)
    then have r: "e' = es1 ! j \<or> e' = (es1 ! j)\<lparr>e_active := False\<rparr>"
      unfolding j(2) .
    from j(1) len have "es1 ! j \<in> set es1" by simp
    with a have "\<not> laser_hits l1 (es1 ! j)" by blast
    with laser_hits_off [OF r] show ?thesis by blast
  qed
  with Cons.IH [OF o] show ?case unfolding eq by simp
qed

lemma explosion_length:
  "\<exists>new. particles (explosion e s) = particles s @ new \<and> length new = 25"
proof -
  from explosion_particles [of e s] obtain reds yellows where
    p: "particles (explosion e s) = particles s @ reds @ yellows"
    and r: "length reds = 15" and y: "length yellows = 10"
    by blast
  from r y have "length (reds @ yellows) = 25" by simp
  with p show ?thesis by blast
qed

lemma laser_vs_enemies_count:
  "laser_vs_enemies l es s = (l1, es1, s1) \<Longrightarrow>
     \<exists>n\<le>1. (n = 1 \<longleftrightarrow> l_active l \<and> \<not> l_active l1) \<and> (l_active l1 \<longrightarrow> l_active l) \<and>
       length (filter e_active es) = length (filter e_active es1) + n \<and>
       score s1 = score s + 100 * int n \<and>
       (\<exists>new. particles s1 = particles s @ new \<and> length new = 25 * n)"
proof -
  assume i: "laser_vs_enemies l es s = (l1, es1, s1)"
  from laser_vs_enemies_cases [of l es s]
  show ?thesis
  proof
    assume "laser_vs_enemies l es s = (l, es, s) \<and> (\<forall>e\<in>set es. \<not> laser_hits l e)"
    with i have "l1 = l" "es1 = es" "s1 = s" by simp_all
    then show ?thesis by (intro exI [of _ 0]) simp
  next
    assume "\<exists>a e b. es = a @ e # b \<and> (\<forall>x\<in>set a. \<not> laser_hits l x) \<and> laser_hits l e \<and>
      laser_vs_enemies l es s =
        (l\<lparr>l_active := False\<rparr>, a @ e\<lparr>e_active := False\<rparr> # b, explosion e s)"
    then obtain a e b where h: "es = a @ e # b" "laser_hits l e"
      "laser_vs_enemies l es s =
        (l\<lparr>l_active := False\<rparr>, a @ e\<lparr>e_active := False\<rparr> # b, explosion e s)"
      by blast
    with i have eq: "l1 = l\<lparr>l_active := False\<rparr>" "es1 = a @ e\<lparr>e_active := False\<rparr> # b"
      "s1 = explosion e s" by simp_all
    from h(2) have act: "l_active l" "e_active e" by (simp_all add: laser_hits_def)
    from explosion_length [of e s] obtain new where
      new: "particles (explosion e s) = particles s @ new" "length new = 25"
      by blast
    have sc: "score (explosion e s) = score s + 100" by (simp add: explosion_frame)
    have cnt: "length (filter e_active es) = length (filter e_active es1) + 1"
      unfolding h(1) eq(2) using act(2) by simp
    have "(1::nat) \<le> 1 \<and> ((1::nat) = 1 \<longleftrightarrow> l_active l \<and> \<not> l_active l1) \<and>
       (l_active l1 \<longrightarrow> l_active l) \<and>
       length (filter e_active es) = length (filter e_active es1) + 1 \<and>
       score s1 = score s + 100 * int 1 \<and>
       (\<exists>new. particles s1 = particles s @ new \<and> length new = 25 * 1)"
      using act(1) cnt sc new unfolding eq(1) eq(3) by simp
    then show ?thesis by (intro exI [of _ 1])
  qed
qed

lemma laser_vs_enemies_frame:
  "laser_vs_enemies l es s = (l1, es1, s1) \<Longrightarrow>
     player s1 = player s \<and> game_over s1 = game_over s \<and> running s1 = running s \<and>
     obstacles s1 = obstacles s \<and> scroll_offset s1 = scroll_offset s \<and>
     world_speed s1 = world_speed s"
  using laser_vs_enemies_cases [of l es s] by (auto simp: explosion_frame)

lemma lasers_vs_enemies_frame:
  "lasers_vs_enemies ls es s = (ls', es', s') \<Longrightarrow>
     player s' = player s \<and> game_over s' = game_over s \<and> running s' = running s \<and>
     obstacles s' = obstacles s \<and> scroll_offset s' = scroll_offset s \<and>
     world_speed s' = world_speed s"
proof (induction ls arbitrary: es s ls' es' s')
  case Nil
  then show ?case by simp
next
  case (Cons l ls)
  obtain l1 es1 s1 where i: "laser_vs_enemies l es s = (l1, es1, s1)"
    by (cases "laser_vs_enemies l es s")
  obtain ls2 es2 s2 where o: "lasers_vs_enemies ls es1 s1 = (ls2, es2, s2)"
    by (cases "lasers_vs_enemies ls es1 s1")
  from Cons.prems i o have eq: "s' = s2" by simp
  from Cons.IH [OF o] laser_vs_enemies_frame [OF i] show ?case unfolding eq by simp
qed

lemma lasers_vs_enemies_count:
  "lasers_vs_enemies ls es s = (ls', es', s') \<Longrightarrow>
     \<exists>n. length (filter l_active ls) = length (filter l_active ls') + n \<and>
       length (filter e_active es) = length (filter e_active es') + n \<and>
       score s' = score s + 100 * int n \<and>
       (\<exists>new. particles s' = particles s @ new \<and> length new = 25 * n)"
proof (induction ls arbitrary: es s ls' es' s')
  case Nil
  then show ?case by simp
next
  case (Cons l ls)
  obtain l1 es1 s1 where i: "laser_vs_enemies l es s = (l1, es1, s1)"
    by (cases "laser_vs_enemies l es s")
  obtain ls2 es2 s2 where o: "lasers_vs_enemies ls es1 s1 = (ls2, es2, s2)"
    by (cases "lasers_vs_enemies ls es1 s1")
  from Cons.prems i o have eq: "ls' = l1 # ls2" "es' = es2" "s' = s2" by simp_all
  from laser_vs_enemies_count [OF i] obtain n new where n: "n \<le> 1"
    "n = 1 \<longleftrightarrow> l_active l \<and> \<not> l_active l1" "l_active l1 \<longrightarrow> l_active l"
    "length (filter e_active es) = length (filter e_active es1) + n"
    "score s1 = score s + 100 * int n"
    "particles s1 = particles s @ new" "length new = 25 * n"
    by blast
  from Cons.IH [OF o] obtain m new2 where m:
    "length (filter l_active ls) = length (filter l_active ls2) + m"
    "length (filter e_active es1) = length (filter e_active es2) + m"
    "score s2 = score s1 + 100 * int m"
    "particles s2 = particles s1 @ new2" "length new2 = 25 * m"
    by blast
  have l: "length (filter l_active (l # ls)) = length (filter l_active (l1 # ls2)) + (n + m)"
  proof (cases "n = 1")
    case True
    with n(2) m(1) show ?thesis by simp
  next
    case False
    with n(1) have n0: "n = 0" by simp
    with n(2,3) have "l_active l1 = l_active l" by auto
    with m(1) n0 show ?thesis by simp
  qed
  have e: "length (filter e_active es) = length (filter e_active es2) + (n + m)"
    using n(4) m(2) by simp
  have sc: "score s2 = score s + 100 * int (n + m)"
    using n(5) m(3) by simp
  have p: "particles s2 = particles s @ (new @ new2)" "length (new @ new2) = 25 * (n + m)"
    using n(6,7) m(4,5) by simp_all
  from l e sc p show ?case unfolding eq by blast
qed

lemma collide_lasers_result:
  "lasers_vs_enemies (lasers s) (enemies s) s = (ls', es', s') \<Longrightarrow>
     lasers (collide_lasers s) = ls' \<and> enemies (collide_lasers s) = es' \<and>
     score (collide_lasers s) = score s' \<and> particles (collide_lasers s) = particles s' \<and>
     player (collide_lasers s) = player s' \<and> obstacles (collide_lasers s) = obstacles s' \<and>
     game_over (collide_lasers s) = game_over s' \<and> running (collide_lasers s) = running s' \<and>
     scroll_offset (collide_lasers s) = scroll_offset s' \<and>
     world_speed (collide_lasers s) = world_speed s'"
  by (simp add: collide_lasers_def)

lemma scenario_advance: "advance 0 (\<lambda>k. False) scenario_game = scenario_game"
  by (simp add: advance_def scenario_game_def initial_game_def Player_update_def
      Player_init_def scroll_def spawn_enemy_def spawn_obstacle_def random_random_def
      update_entities_def remove_inactive_def Laser_update_def Enemy_update_def
      Laser_init_def scenario_enemy_def Let_def)

lemma player_vs_entities_inactive:
  "\<forall>en\<in>set ens. \<not> entity_active en \<Longrightarrow> player_vs_entities ens s = (ens, s)"
  by (induction ens) (simp_all add: player_entity_def)

lemma enemies_of_append:
  "enemies_of (map EnemyE es @ map ObstacleE obs) = es"
proof (induction es)
  case Nil
  show ?case by (induction obs) simp_all
next
  case (Cons e es)
  then show ?case by simp
qed

lemma obstacles_of_append:
  "obstacles_of (map EnemyE es @ map ObstacleE obs) = obs"
proof (induction es)
  case Nil
  show ?case by (induction obs) simp_all
next
  case (Cons e es)
  then show ?case by simp
qed

lemma collide_player_inactive:
  "\<forall>e\<in>set (enemies s). \<not> e_active e \<Longrightarrow> \<forall>ob\<in>set (obstacles s). \<not> o_active ob \<Longrightarrow>
     collide_player s = s"
proof -
  assume a: "\<forall>e\<in>set (enemies s). \<not> e_active e" and b: "\<forall>ob\<in>set (obstacles s). \<not> o_active ob"
  have "\<forall>en\<in>set (map EnemyE (enemies s) @ map ObstacleE (obstacles s)). \<not> entity_active en"
    using a b by auto
  from player_vs_entities_inactive [OF this, of s] show ?thesis
    by (simp add: collide_player_def enemies_of_append obstacles_of_append)
qed

text \<open>
  Claim C3. Pass A, the loops of lasers against enemies. Whenever the inner loop of a
  laser reaches an enemy with both still active (the laser is active and has hit none of
  the enemies before this one) and their Euclidean distance is strictly less than the
  enemy's radius plus 1, the run of the inner loop deactivates both, adds exactly 100 to
  the score and appends exactly 25 particles at the enemy's position, 15 red ones and
  then 10 yellow ones, and changes no other enemy. For the whole pass over the lists of a
  game state: every laser and enemy is afterwards what it was or that object
  deactivated; no pair is left that is active and in range; the active lasers and the
  active enemies are fewer by the same number \<open>n\<close> of collisions, the score is higher by
  \<open>100 * n\<close> and \<open>25 * n\<close> particles were appended; player, obstacles and the
  game-over flag are untouched.
\<close>

theorem laser_pass_collision:
  "(laser_hits l e \<and> (\<forall>x\<in>set es1. \<not> laser_hits l x) \<longrightarrow>
      (\<exists>s1 reds yellows.
          laser_vs_enemies l (es1 @ e # es2) s =
            (l\<lparr>l_active := False\<rparr>, es1 @ e\<lparr>e_active := False\<rparr> # es2, s1) \<and>
          score s1 = score s + 100 \<and>
          particles s1 = particles s @ reds @ yellows \<and>
          length reds = 15 \<and> length yellows = 10 \<and>
          list_all (particle_at (e_x e) (e_y e) (e_z e) RED) reds \<and>
          list_all (particle_at (e_x e) (e_y e) (e_z e) YELLOW) yellows \<and>
          player s1 = player s \<and> obstacles s1 = obstacles s \<and>
          game_over s1 = game_over s)) \<and>
   (\<forall>l'\<in>set (lasers (collide_lasers g)). \<forall>e'\<in>set (enemies (collide_lasers g)).
      \<not> laser_hits l' e') \<and>
   list_all2 (\<lambda>l l'. l' = l \<or> l' = l\<lparr>l_active := False\<rparr>)
     (lasers g) (lasers (collide_lasers g)) \<and>
   list_all2 (\<lambda>e e'. e' = e \<or> e' = e\<lparr>e_active := False\<rparr>)
     (enemies g) (enemies (collide_lasers g)) \<and>
   (\<exists>n new.
      length (filter l_active (lasers g))
        = length (filter l_active (lasers (collide_lasers g))) + n \<and>
      length (filter e_active (enemies g))
        = length (filter e_active (enemies (collide_lasers g))) + n \<and>
      score (collide_lasers g) = score g + 100 * int n \<and>
      particles (collide_lasers g) = particles g @ new \<and> length new = 25 * n) \<and>
   player (collide_lasers g) = player g \<and> obstacles (collide_lasers g) = obstacles g \<and>
   game_over (collide_lasers g) = game_over g"
proof -
  have one: "\<exists>s1 reds yellows.
          laser_vs_enemies l (es1 @ e # es2) s =
            (l\<lparr>l_active := False\<rparr>, es1 @ e\<lparr>e_active := False\<rparr> # es2, s1) \<and>
          score s1 = score s + 100 \<and>
          particles s1 = particles s @ reds @ yellows \<and>
          length reds = 15 \<and> length yellows = 10 \<and>
          list_all (particle_at (e_x e) (e_y e) (e_z e) RED) reds \<and>
          list_all (particle_at (e_x e) (e_y e) (e_z e) YELLOW) yellows \<and>
          player s1 = player s \<and> obstacles s1 = obstacles s \<and>
          game_over s1 = game_over s"
    if h: "laser_hits l e" "\<forall>x\<in>set es1. \<not> laser_hits l x"
  proof -
    from explosion_particles [of e s] obtain reds yellows where
      p: "particles (explosion e s) = particles s @ reds @ yellows"
      "length reds = 15" "length yellows = 10"
      "list_all (particle_at (e_x e) (e_y e) (e_z e) RED) reds"
      "list_all (particle_at (e_x e) (e_y e) (e_z e) YELLOW) yellows"
      by blast
    have f: "score (explosion e s) = score s + 100" "player (explosion e s) = player s"
      "obstacles (explosion e s) = obstacles s" "game_over (explosion e s) = game_over s"
      by (simp_all add: explosion_frame)
    from laser_vs_enemies_hit [OF h(2) h(1), of es2 s] p f show ?thesis by blast
  qed
  obtain ls' es' s' where r: "lasers_vs_enemies (lasers g) (enemies g) g = (ls', es', s')"
    by (cases "lasers_vs_enemies (lasers g) (enemies g) g")
  note c = collide_lasers_result [OF r]
  have two: "\<forall>l'\<in>set (lasers (collide_lasers g)). \<forall>e'\<in>set (enemies (collide_lasers g)).
      \<not> laser_hits l' e'"
    using lasers_vs_enemies_done [OF r] c by simp
  have three: "list_all2 (\<lambda>l l'. l' = l \<or> l' = l\<lparr>l_active := False\<rparr>)
     (lasers g) (lasers (collide_lasers g))"
    "list_all2 (\<lambda>e e'. e' = e \<or> e' = e\<lparr>e_active := False\<rparr>)
     (enemies g) (enemies (collide_lasers g))"
    using lasers_vs_enemies_same [OF r] c by simp_all
  have four: "\<exists>n new.
      length (filter l_active (lasers g))
        = length (filter l_active (lasers (collide_lasers g))) + n \<and>
      length (filter e_active (enemies g))
        = length (filter e_active (enemies (collide_lasers g))) + n \<and>
      score (collide_lasers g) = score g + 100 * int n \<and>
      particles (collide_lasers g) = particles g @ new \<and> length new = 25 * n"
    using lasers_vs_enemies_count [OF r] c by simp
  have five: "player (collide_lasers g) = player g"
    "obstacles (collide_lasers g) = obstacles g" "game_over (collide_lasers g) = game_over g"
    using lasers_vs_enemies_frame [OF r] c by simp_all
  from one two three four five show ?thesis by blast
qed

text \<open>
  The scenario of the specification: the enemy at \<open>(0, 0, 10)\<close> with radius 1.5 and
  the laser at \<open>(0, 0, 10)\<close> are at distance 0, below 2.5. The pass, and one whole
  update with \<open>dt = 0\<close> and no key held, leave the laser inactive, the enemy
  inactive, the score at 100 and 25 particles.
\<close>

theorem laser_pass_collision_witness:
  "laser_hits (Laser_init 0 0 10) scenario_enemy \<and>
   sqrt ((l_x (Laser_init 0 0 10) - e_x scenario_enemy)\<^sup>2
         + (l_y (Laser_init 0 0 10) - e_y scenario_enemy)\<^sup>2
         + (l_z (Laser_init 0 0 10) - e_z scenario_enemy)\<^sup>2) = 0 \<and>
   e_radius scenario_enemy + 1 = 2.5 \<and>
   lasers (collide_lasers scenario_game) = [(Laser_init 0 0 10)\<lparr>l_active := False\<rparr>] \<and>
   enemies (collide_lasers scenario_game) = [scenario_enemy\<lparr>e_active := False\<rparr>] \<and>
   score (collide_lasers scenario_game) = 100 \<and>
   length (particles (collide_lasers scenario_game)) = 25 \<and>
   lasers (update 0 (\<lambda>k. False) scenario_game) = [(Laser_init 0 0 10)\<lparr>l_active := False\<rparr>] \<and>
   enemies (update 0 (\<lambda>k. False) scenario_game) = [scenario_enemy\<lparr>e_active := False\<rparr>] \<and>
   score (update 0 (\<lambda>k. False) scenario_game) = 100 \<and>
   length (particles (update 0 (\<lambda>k. False) scenario_game)) = 25 \<and>
   p_hp (player (update 0 (\<lambda>k. False) scenario_game)) = 100"
proof -
  let ?l = "Laser_init 0 0 10"
  let ?c = "collide_lasers scenario_game"
  have d: "sqrt ((l_x ?l - e_x scenario_enemy)\<^sup>2 + (l_y ?l - e_y scenario_enemy)\<^sup>2
         + (l_z ?l - e_z scenario_enemy)\<^sup>2) = 0"
    by (simp add: Laser_init_def scenario_enemy_def)
  have r: "e_radius scenario_enemy + 1 = 2.5" by (simp add: scenario_enemy_def)
  have h: "laser_hits ?l scenario_enemy"
    unfolding laser_hits_def in_range_def d r
    by (simp add: Laser_init_def scenario_enemy_def)
  have g: "lasers scenario_game = [?l]" "enemies scenario_game = [scenario_enemy]"
    "score scenario_game = 0" "particles scenario_game = []" "obstacles scenario_game = []"
    "player scenario_game = Player_init"
    by (simp_all add: scenario_game_def initial_game_def)
  note t = laser_pass_collision [where l = ?l and e = scenario_enemy and ?es1.0 = "[]"
      and ?es2.0 = "[]" and s = scenario_game and g = scenario_game]
  from t h have ls: "list_all2 (\<lambda>l l'. l' = l \<or> l' = l\<lparr>l_active := False\<rparr>) [?l] (lasers ?c)"
    and es: "list_all2 (\<lambda>e e'. e' = e \<or> e' = e\<lparr>e_active := False\<rparr>) [scenario_enemy] (enemies ?c)"
    and nohit: "\<forall>l'\<in>set (lasers ?c). \<forall>e'\<in>set (enemies ?c). \<not> laser_hits l' e'"
    and fr: "player ?c = Player_init" "obstacles ?c = []"
    unfolding g by simp_all
  from ls obtain l' where l': "lasers ?c = [l']" "l' = ?l \<or> l' = ?l\<lparr>l_active := False\<rparr>"
    by (auto simp: list_all2_Cons1)
  from es obtain e' where e': "enemies ?c = [e']"
    "e' = scenario_enemy \<or> e' = scenario_enemy\<lparr>e_active := False\<rparr>"
    by (auto simp: list_all2_Cons1)
  from t obtain n new where n:
    "length (filter l_active [?l]) = length (filter l_active (lasers ?c)) + n"
    "length (filter e_active [scenario_enemy]) = length (filter e_active (enemies ?c)) + n"
    "score ?c = 0 + 100 * int n" "particles ?c = [] @ new" "length new = 25 * n"
    unfolding g by blast
  from nohit l'(1) e'(1) have nh: "\<not> laser_hits l' e'" by simp
  have n1: "n = 1"
  proof (rule ccontr)
    assume "n \<noteq> 1"
    with n(1) l' have la: "l' = ?l" by (auto simp: Laser_init_def split: if_splits)
    from \<open>n \<noteq> 1\<close> n(2) e' have "e' = scenario_enemy"
      by (auto simp: scenario_enemy_def split: if_splits)
    with la nh h show False by simp
  qed
  from n1 n(1) l' have l2: "l' = ?l\<lparr>l_active := False\<rparr>"
    by (auto simp: Laser_init_def split: if_splits)
  from n1 n(2) e' have e2: "e' = scenario_enemy\<lparr>e_active := False\<rparr>"
    by (auto simp: scenario_enemy_def split: if_splits)
  have c: "lasers ?c = [?l\<lparr>l_active := False\<rparr>]"
    "enemies ?c = [scenario_enemy\<lparr>e_active := False\<rparr>]"
    "score ?c = 100" "length (particles ?c) = 25"
    using l'(1) l2 e'(1) e2 n(3,4,5) n1 by simp_all
  have u: "update 0 (\<lambda>k. False) scenario_game = collide_player ?c"
    by (simp add: update_def scenario_advance)
  have "collide_player ?c = ?c"
    by (rule collide_player_inactive) (simp_all add: c fr)
  with u have "update 0 (\<lambda>k. False) scenario_game = ?c" by simp
  with c fr d r h show ?thesis by (simp add: Player_init_def)
qed

section \<open>Frames while the game is over\<close>

lemma handle_event_over:
  "game_over s \<Longrightarrow> ev \<noteq> KEYDOWN K_r \<Longrightarrow>
     handle_event ev s = (if ev = QUIT then s\<lparr>running := False\<rparr> else s)"
  by (cases ev) (simp_all add: Let_def)

lemma handle_events_over:
  "game_over s \<Longrightarrow> KEYDOWN K_r \<notin> set evs \<Longrightarrow>
     handle_events evs s = (if QUIT \<in> set evs then s\<lparr>running := False\<rparr> else s)"
proof (induction evs arbitrary: s)
  case Nil
  then show ?case by simp
next
  case (Cons ev evs)
  from Cons.prems have ne: "ev \<noteq> KEYDOWN K_r" and nr: "KEYDOWN K_r \<notin> set evs" by auto
  show ?case
  proof (cases "ev = QUIT")
    case True
    have "game_over (s\<lparr>running := False\<rparr>)" using Cons.prems(1) by simp
    from Cons.IH [OF this nr] True show ?thesis by simp
  next
    case False
    with handle_event_over [OF Cons.prems(1) ne] have "handle_event ev s = s" by simp
    with Cons.IH [OF Cons.prems(1) nr] False show ?thesis by auto
  qed
qed

text \<open>
  Claim C9. While the game is over, a frame whose event queue holds no key-down of
  \<open>R\<close> (the restart input) runs no simulation: the player, the score, the scroll
  offset, the four collections and the generator are unchanged, whatever the time step,
  the other events and the pressed keys. The frame leaves the whole state as it was,
  except that a \<open>QUIT\<close> event clears \<open>running\<close>; the game stays over.
\<close>

theorem game_over_frame:
  "game_over s \<Longrightarrow> KEYDOWN K_r \<notin> set (events inp) \<Longrightarrow>
     frame inp s = (if QUIT \<in> set (events inp) then s\<lparr>running := False\<rparr> else s) \<and>
     player (frame inp s) = player s \<and> score (frame inp s) = score s \<and>
     scroll_offset (frame inp s) = scroll_offset s \<and>
     lasers (frame inp s) = lasers s \<and> enemies (frame inp s) = enemies s \<and>
     obstacles (frame inp s) = obstacles s \<and> particles (frame inp s) = particles s \<and>
     game_over (frame inp s) \<and> rng_state (frame inp s) = rng_state s"
proof -
  assume a: "game_over s" and b: "KEYDOWN K_r \<notin> set (events inp)"
  have "frame inp s = (if QUIT \<in> set (events inp) then s\<lparr>running := False\<rparr> else s)"
    using a by (simp add: frame_def handle_events_over [OF a b])
  with a show ?thesis by simp
qed

text \<open>
  A frame with the fire key and the left key, and a frame with \<open>QUIT\<close>, in a state
  where the game is over.
\<close>

theorem game_over_frame_witness:
  "game_over over_game \<and>
   KEYDOWN K_r \<notin> set [KEYDOWN K_SPACE, OTHER_EVENT, KEYDOWN K_LEFT] \<and>
   frame \<lparr>dt = 1 / 60, events = [KEYDOWN K_SPACE, OTHER_EVENT, KEYDOWN K_LEFT],
          pressed_keys = (\<lambda>k. k = K_LEFT \<or> k = K_SPACE)\<rparr> over_game = over_game \<and>
   frame \<lparr>dt = 1 / 60, events = [QUIT], pressed_keys = (\<lambda>k. False)\<rparr> over_game
     = over_game\<lparr>running := False\<rparr>"
  using game_over_frame [of over_game "\<lparr>dt = 1 / 60,
      events = [KEYDOWN K_SPACE, OTHER_EVENT, KEYDOWN K_LEFT],
      pressed_keys = (\<lambda>k. k = K_LEFT \<or> k = K_SPACE)\<rparr>"]
    game_over_frame [of over_game
      "\<lparr>dt = 1 / 60, events = [QUIT], pressed_keys = (\<lambda>k. False)\<rparr>"]
  by (simp add: over_game_def)

section \<open>A laser scores once\<close>

text \<open>
  Claim C7. Within one pass of lasers against enemies every laser scores at most once. An
  inactive laser goes through the enemies without any effect: the guard of the loop body
  excludes it from every pair. The inner loop of a laser either changes nothing, or
  deactivates the laser and exactly one enemy, which was active, and adds exactly 100 to
  the score; so it adds at most 100 and deactivates at most one enemy. Over the whole
  pass the score grows by 100 times the number of lasers that were deactivated, which is
  also the number of enemies deactivated and at most the number of active lasers.
\<close>

theorem laser_scores_once:
  "(\<not> l_active l \<longrightarrow> laser_vs_enemies l es s = (l, es, s)) \<and>
   (\<exists>l1 es1 s1. laser_vs_enemies l es s = (l1, es1, s1) \<and>
      (l1 = l \<and> es1 = es \<and> s1 = s \<or>
       (\<exists>a e b. l_active l \<and> e_active e \<and> es = a @ e # b \<and>
          l1 = l\<lparr>l_active := False\<rparr> \<and> es1 = a @ e\<lparr>e_active := False\<rparr> # b \<and>
          score s1 = score s + 100)) \<and>
      score s1 \<le> score s + 100 \<and>
      length (filter e_active es) \<le> length (filter e_active es1) + 1) \<and>
   (\<exists>n. n \<le> length (filter l_active (lasers g)) \<and>
      score (collide_lasers g) = score g + 100 * int n \<and>
      length (filter l_active (lasers g))
        = length (filter l_active (lasers (collide_lasers g))) + n \<and>
      length (filter e_active (enemies g))
        = length (filter e_active (enemies (collide_lasers g))) + n)"
proof -
  have one: "\<not> l_active l \<longrightarrow> laser_vs_enemies l es s = (l, es, s)"
    by (simp add: laser_vs_enemies_inactive)
  obtain l1 es1 s1 where i: "laser_vs_enemies l es s = (l1, es1, s1)"
    by (cases "laser_vs_enemies l es s")
  from laser_vs_enemies_count [OF i] obtain n where n: "n \<le> 1"
    "length (filter e_active es) = length (filter e_active es1) + n"
    "score s1 = score s + 100 * int n"
    by blast
  from n have b: "score s1 \<le> score s + 100"
    "length (filter e_active es) \<le> length (filter e_active es1) + 1"
    by simp_all
  from laser_vs_enemies_cases [of l es s]
  have "l1 = l \<and> es1 = es \<and> s1 = s \<or>
       (\<exists>a e b. l_active l \<and> e_active e \<and> es = a @ e # b \<and>
          l1 = l\<lparr>l_active := False\<rparr> \<and> es1 = a @ e\<lparr>e_active := False\<rparr> # b \<and>
          score s1 = score s + 100)"
  proof
    assume "laser_vs_enemies l es s = (l, es, s) \<and> (\<forall>e\<in>set es. \<not> laser_hits l e)"
    with i show ?thesis by simp
  next
    assume "\<exists>a e b. es = a @ e # b \<and> (\<forall>x\<in>set a. \<not> laser_hits l x) \<and> laser_hits l e \<and>
      laser_vs_enemies l es s =
        (l\<lparr>l_active := False\<rparr>, a @ e\<lparr>e_active := False\<rparr> # b, explosion e s)"
    then obtain a e b where h: "es = a @ e # b" "laser_hits l e"
      "laser_vs_enemies l es s =
        (l\<lparr>l_active := False\<rparr>, a @ e\<lparr>e_active := False\<rparr> # b, explosion e s)"
      by blast
    from h(3) i have eq: "l1 = l\<lparr>l_active := False\<rparr>"
      "es1 = a @ e\<lparr>e_active := False\<rparr> # b" "s1 = explosion e s" by simp_all
    from h(2) have "l_active l" "e_active e" by (simp_all add: laser_hits_def)
    moreover have "score s1 = score s + 100" unfolding eq by (simp add: explosion_frame)
    ultimately show ?thesis using h(1) eq(1,2) by blast
  qed
  with i b have two: "\<exists>l1 es1 s1. laser_vs_enemies l es s = (l1, es1, s1) \<and>
      (l1 = l \<and> es1 = es \<and> s1 = s \<or>
       (\<exists>a e b. l_active l \<and> e_active e \<and> es = a @ e # b \<and>
          l1 = l\<lparr>l_active := False\<rparr> \<and> es1 = a @ e\<lparr>e_active := False\<rparr> # b \<and>
          score s1 = score s + 100)) \<and>
      score s1 \<le> score s + 100 \<and>
      length (filter e_active es) \<le> length (filter e_active es1) + 1"
    by blast
  obtain ls' es' s' where r: "lasers_vs_enemies (lasers g) (enemies g) g = (ls', es', s')"
    by (cases "lasers_vs_enemies (lasers g) (enemies g) g")
  note c = collide_lasers_result [OF r]
  from lasers_vs_enemies_count [OF r] obtain m where m:
    "length (filter l_active (lasers g)) = length (filter l_active ls') + m"
    "length (filter e_active (enemies g)) = length (filter e_active es') + m"
    "score s' = score g + 100 * int m"
    by blast
  from m(1) have "m \<le> length (filter l_active (lasers g))" by simp
  with m c have three: "\<exists>n. n \<le> length (filter l_active (lasers g)) \<and>
      score (collide_lasers g) = score g + 100 * int n \<and>
      length (filter l_active (lasers g))
        = length (filter l_active (lasers (collide_lasers g))) + n \<and>
      length (filter e_active (enemies g))
        = length (filter e_active (enemies (collide_lasers g))) + n"
    by (intro exI [of _ m]) simp
  from one two three show ?thesis by blast
qed

text \<open>
  The laser of the scenario with two enemies in range: it deactivates the first, scores
  100, and leaves the second, still active, untouched; once inactive it passes the second
  enemy without effect.
\<close>

theorem laser_scores_once_witness:
  "in_range (Laser_init 0 0 10) scenario_enemy \<and> in_range (Laser_init 0 0 10) second_enemy \<and>
   e_active second_enemy \<and>
   fst (laser_vs_enemies (Laser_init 0 0 10) [scenario_enemy, second_enemy] scenario_game)
     = (Laser_init 0 0 10)\<lparr>l_active := False\<rparr> \<and>
   fst (snd (laser_vs_enemies (Laser_init 0 0 10) [scenario_enemy, second_enemy]
               scenario_game))
     = [scenario_enemy\<lparr>e_active := False\<rparr>, second_enemy] \<and>
   score (snd (snd (laser_vs_enemies (Laser_init 0 0 10) [scenario_enemy, second_enemy]
                      scenario_game))) = 100 \<and>
   \<not> l_active ((Laser_init 0 0 10)\<lparr>l_active := False\<rparr>) \<and>
   laser_vs_enemies ((Laser_init 0 0 10)\<lparr>l_active := False\<rparr>) [second_enemy] scenario_game
     = ((Laser_init 0 0 10)\<lparr>l_active := False\<rparr>, [second_enemy], scenario_game)"
proof -
  let ?l = "Laser_init 0 0 10"
  have r1: "in_range ?l scenario_enemy"
    by (simp add: in_range_def Laser_init_def scenario_enemy_def)
  have r2: "in_range ?l second_enemy"
    by (simp add: in_range_def Laser_init_def second_enemy_def)
  have a: "e_active second_enemy" by (simp add: second_enemy_def)
  have h: "laser_hits ?l scenario_enemy"
    using r1 by (simp add: laser_hits_def Laser_init_def scenario_enemy_def)
  have i: "\<not> l_active (?l\<lparr>l_active := False\<rparr>)" by simp
  from laser_vs_enemies_hit [of "[]" ?l scenario_enemy "[second_enemy]" scenario_game] h
  have e: "laser_vs_enemies ?l [scenario_enemy, second_enemy] scenario_game
      = (?l\<lparr>l_active := False\<rparr>, [scenario_enemy\<lparr>e_active := False\<rparr>, second_enemy],
         explosion scenario_enemy scenario_game)"
    by simp
  have sc: "score (explosion scenario_enemy scenario_game) = 100"
    by (simp add: explosion_frame scenario_game_def initial_game_def)
  from laser_scores_once [of "?l\<lparr>l_active := False\<rparr>" "[second_enemy]" scenario_game
      scenario_game] i
  have "laser_vs_enemies (?l\<lparr>l_active := False\<rparr>) [second_enemy] scenario_game
     = (?l\<lparr>l_active := False\<rparr>, [second_enemy], scenario_game)"
    by blast
  with r1 r2 a e sc i show ?thesis by simp
qed

section \<open>Player versus enemies and obstacles\<close>

lemma player_entity_eq:
  "player_entity en s =
     (if player_hits (player s) en then (entity_deactivate en, damage s) else (en, s))"
  by (simp add: player_entity_def player_hits_def damage_def Let_def)

lemma damage_frame:
  "player (damage s) = (player s)\<lparr>p_hp := p_hp (player s) - 25\<rparr> \<and>
   game_over (damage s) = (game_over s \<or> p_hp (player s) - 25 \<le> 0) \<and>
   score (damage s) = score s \<and> lasers (damage s) = lasers s \<and>
   running (damage s) = running s \<and> scroll_offset (damage s) = scroll_offset s \<and>
   world_speed (damage s) = world_speed s"
  by (simp add: damage_def Let_def spawn_particles_frame)

lemma damage_particles:
  "\<exists>new. particles (damage s) = particles s @ new \<and> length new = 20 \<and>
     list_all (particle_at (p_x (player s)) (p_y (player s)) (p_z (player s)) CYAN) new"
proof -
  define s1 where "s1 = s\<lparr>player := (player s)\<lparr>p_hp := p_hp (player s) - 25\<rparr>\<rparr>"
  from spawn_particles_particles
    [of 20 "p_x (player s1)" "p_y (player s1)" "p_z (player s1)" CYAN s1]
  obtain new where
    "particles (spawn_particles 20 (p_x (player s1)) (p_y (player s1)) (p_z (player s1))
        CYAN s1) = particles s1 @ new" "length new = 20"
    "list_all (particle_at (p_x (player s1)) (p_y (player s1)) (p_z (player s1)) CYAN) new"
    by blast
  then show ?thesis
    by (intro exI [of _ new]) (simp add: damage_def Let_def s1_def)
qed

lemma player_hits_hp [simp]: "player_hits (p\<lparr>p_hp := h\<rparr>) en = player_hits p en"
  by (simp add: player_hits_def)

lemma player_vs_entities_result:
  "player_vs_entities ens s = (ens', s') \<Longrightarrow>
     ens' = map (\<lambda>en. if player_hits (player s) en then entity_deactivate en else en) ens \<and>
     player s' = (player s)\<lparr>p_hp := p_hp (player s)
                    - 25 * int (length (filter (player_hits (player s)) ens))\<rparr> \<and>
     game_over s' = (game_over s \<or>
        0 < length (filter (player_hits (player s)) ens) \<and>
        p_hp (player s) - 25 * int (length (filter (player_hits (player s)) ens)) \<le> 0) \<and>
     score s' = score s \<and> lasers s' = lasers s \<and> running s' = running s \<and>
     scroll_offset s' = scroll_offset s \<and> world_speed s' = world_speed s \<and>
     (\<exists>new. particles s' = particles s @ new \<and>
        length new = 20 * length (filter (player_hits (player s)) ens) \<and>
        list_all (particle_at (p_x (player s)) (p_y (player s)) (p_z (player s)) CYAN) new)"
proof (induction ens arbitrary: s ens' s')
  case Nil
  then show ?case by simp
next
  case (Cons en ens)
  show ?case
  proof (cases "player_hits (player s) en")
    case False
    obtain ens2 s2 where r: "player_vs_entities ens s = (ens2, s2)"
      by (cases "player_vs_entities ens s")
    from Cons.prems False r have eq: "ens' = en # ens2" "s' = s2"
      by (simp_all add: player_entity_eq)
    from Cons.IH [OF r] False show ?thesis unfolding eq by simp
  next
    case True
    define n where "n = length (filter (player_hits (player s)) ens)"
    obtain ens2 s2 where r: "player_vs_entities ens (damage s) = (ens2, s2)"
      by (cases "player_vs_entities ens (damage s)")
    from Cons.prems True r have eq: "ens' = entity_deactivate en # ens2" "s' = s2"
      by (simp_all add: player_entity_eq)
    have d: "player (damage s) = (player s)\<lparr>p_hp := p_hp (player s) - 25\<rparr>"
      "game_over (damage s) = (game_over s \<or> p_hp (player s) - 25 \<le> 0)"
      "score (damage s) = score s" "lasers (damage s) = lasers s"
      "running (damage s) = running s" "scroll_offset (damage s) = scroll_offset s"
      "world_speed (damage s) = world_speed s"
      by (simp_all add: damage_frame)
    from damage_particles [of s] obtain new1 where new1:
      "particles (damage s) = particles s @ new1" "length new1 = 20"
      "list_all (particle_at (p_x (player s)) (p_y (player s)) (p_z (player s)) CYAN) new1"
      by blast
    from Cons.IH [OF r] have ih:
      "ens2 = map (\<lambda>en. if player_hits (player s) en then entity_deactivate en else en) ens"
      "player s2 = (player s)\<lparr>p_hp := p_hp (player s) - 25 - 25 * int n\<rparr>"
      "game_over s2 = (game_over s \<or> p_hp (player s) - 25 \<le> 0 \<or>
          0 < n \<and> p_hp (player s) - 25 - 25 * int n \<le> 0)"
      "score s2 = score s" "lasers s2 = lasers s" "running s2 = running s"
      "scroll_offset s2 = scroll_offset s" "world_speed s2 = world_speed s"
      unfolding d n_def by simp_all
    from Cons.IH [OF r] obtain new2 where new2:
      "particles s2 = (particles s @ new1) @ new2" "length new2 = 20 * n"
      "list_all (particle_at (p_x (player s)) (p_y (player s)) (p_z (player s)) CYAN) new2"
      unfolding d new1(1) n_def by auto
    have cnt: "length (filter (player_hits (player s)) (en # ens)) = Suc n"
      using True by (simp add: n_def)
    have hp: "p_hp (player s) - 25 - 25 * int n = p_hp (player s) - 25 * int (Suc n)"
      by simp
    have go: "(game_over s \<or> p_hp (player s) - 25 \<le> 0 \<or>
          0 < n \<and> p_hp (player s) - 25 - 25 * int n \<le> 0)
        = (game_over s \<or> 0 < Suc n \<and> p_hp (player s) - 25 * int (Suc n) \<le> 0)"
      by (cases n) auto
    have p: "particles s2 = particles s @ (new1 @ new2)"
      "length (new1 @ new2) = 20 * Suc n"
      "list_all (particle_at (p_x (player s)) (p_y (player s)) (p_z (player s)) CYAN)
         (new1 @ new2)"
      using new1 new2 by simp_all
    from p have pe: "\<exists>new. particles s2 = particles s @ new \<and> length new = 20 * Suc n \<and>
        list_all (particle_at (p_x (player s)) (p_y (player s)) (p_z (player s)) CYAN) new"
      by blast
    show ?thesis unfolding eq cnt
      using True ih(1) ih(2) [unfolded hp] ih(3) [unfolded go] ih(4-8) pe by simp
  qed
qed

lemma enemies_of_map:
  "enemies_of (map (\<lambda>en. if P en then entity_deactivate en else en)
                 (map EnemyE es @ map ObstacleE obs))
     = map (\<lambda>e. if P (EnemyE e) then e\<lparr>e_active := False\<rparr> else e) es"
proof (induction es)
  case Nil
  show ?case by (induction obs) simp_all
next
  case (Cons e es)
  then show ?case by simp
qed

lemma obstacles_of_map:
  "obstacles_of (map (\<lambda>en. if P en then entity_deactivate en else en)
                   (map EnemyE es @ map ObstacleE obs))
     = map (\<lambda>ob. if P (ObstacleE ob) then ob\<lparr>o_active := False\<rparr> else ob) obs"
proof (induction es)
  case Nil
  show ?case by (induction obs) simp_all
next
  case (Cons e es)
  then show ?case by simp
qed

lemma collide_player_result:
  "enemies (collide_player s)
     = map (\<lambda>e. if player_hits (player s) (EnemyE e) then e\<lparr>e_active := False\<rparr> else e)
         (enemies s) \<and>
   obstacles (collide_player s)
     = map (\<lambda>ob. if player_hits (player s) (ObstacleE ob) then ob\<lparr>o_active := False\<rparr> else ob)
         (obstacles s) \<and>
   player (collide_player s)
     = (player s)\<lparr>p_hp := p_hp (player s) - 25 * int (player_collisions s)\<rparr> \<and>
   game_over (collide_player s)
     = (game_over s \<or> 0 < player_collisions s \<and>
          p_hp (player s) - 25 * int (player_collisions s) \<le> 0) \<and>
   score (collide_player s) = score s \<and> lasers (collide_player s) = lasers s \<and>
   running (collide_player s) = running s \<and>
   scroll_offset (collide_player s) = scroll_offset s \<and>
   world_speed (collide_player s) = world_speed s \<and>
   (\<exists>new. particles (collide_player s) = particles s @ new \<and>
      length new = 20 * player_collisions s \<and>
      list_all (particle_at (p_x (player s)) (p_y (player s)) (p_z (player s)) CYAN) new)"
proof -
  obtain ens' s' where
    r: "player_vs_entities (map EnemyE (enemies s) @ map ObstacleE (obstacles s)) s = (ens', s')"
    by (cases "player_vs_entities (map EnemyE (enemies s) @ map ObstacleE (obstacles s)) s")
  have c: "collide_player s = s'\<lparr>enemies := enemies_of ens', obstacles := obstacles_of ens'\<rparr>"
    by (simp add: collide_player_def r)
  note f = player_vs_entities_result [OF r, folded player_collisions_def]
  from f have e: "ens' = map (\<lambda>en. if player_hits (player s) en then entity_deactivate en else en)
      (map EnemyE (enemies s) @ map ObstacleE (obstacles s))"
    by blast
  have "enemies (collide_player s) = enemies_of ens'" "obstacles (collide_player s) = obstacles_of ens'"
    "player (collide_player s) = player s'" "game_over (collide_player s) = game_over s'"
    "score (collide_player s) = score s'" "lasers (collide_player s) = lasers s'"
    "running (collide_player s) = running s'"
    "scroll_offset (collide_player s) = scroll_offset s'"
    "world_speed (collide_player s) = world_speed s'"
    "particles (collide_player s) = particles s'"
    unfolding c by simp_all
  with f show ?thesis
    unfolding e enemies_of_map obstacles_of_map by simp
qed

lemma Let_inv: "Q a \<Longrightarrow> (\<And>x. Q x \<Longrightarrow> P (f x)) \<Longrightarrow> P (Let a f)"
  by simp

lemma Player_update_hp: "p_hp (Player_update d pressed p) = p_hp p"
  unfolding Player_update_def
  apply (rule Let_inv [where Q = "\<lambda>r. p_hp r = p_hp p" and P = "\<lambda>r. p_hp r = p_hp p"])
   apply simp
  apply (rule Let_inv [where Q = "\<lambda>r. p_hp r = p_hp p" and P = "\<lambda>r. p_hp r = p_hp p"])
   apply simp
  apply (rule Let_inv [where Q = "\<lambda>r. p_hp r = p_hp p" and P = "\<lambda>r. p_hp r = p_hp p"])
   apply simp
  apply (rule Let_inv [where Q = "\<lambda>r. p_hp r = p_hp p" and P = "\<lambda>r. p_hp r = p_hp p"])
   apply simp
  apply (rule Let_inv [where Q = "\<lambda>r. p_hp r = p_hp p" and P = "\<lambda>r. p_hp r = p_hp p"])
   apply simp
  apply (rule Let_inv [where Q = "\<lambda>r. p_hp r = p_hp p" and P = "\<lambda>r. p_hp r = p_hp p"])
   apply simp
  apply (rule Let_any [where P = "\<lambda>r. p_hp r = p_hp p"])
  apply (rule Let_inv [where Q = "\<lambda>r. p_hp r = p_hp p" and P = "\<lambda>r. p_hp r = p_hp p"])
   apply simp
  apply simp
  done

lemma scroll_frame:
  "player (scroll d s) = player s \<and> game_over (scroll d s) = game_over s \<and>
   score (scroll d s) = score s \<and> running (scroll d s) = running s"
  by (simp add: scroll_def Let_def)

lemma spawn_enemy_frame:
  "player (spawn_enemy s) = player s \<and> game_over (spawn_enemy s) = game_over s \<and>
   score (spawn_enemy s) = score s \<and> running (spawn_enemy s) = running s"
  by (simp add: spawn_enemy_def split: prod.splits)

lemma spawn_obstacle_frame:
  "player (spawn_obstacle s) = player s \<and> game_over (spawn_obstacle s) = game_over s \<and>
   score (spawn_obstacle s) = score s \<and> running (spawn_obstacle s) = running s"
  by (simp add: spawn_obstacle_def split: prod.splits)

lemma update_entities_frame:
  "player (update_entities d s) = player s \<and> game_over (update_entities d s) = game_over s \<and>
   score (update_entities d s) = score s \<and> running (update_entities d s) = running s"
  by (simp add: update_entities_def)

lemma remove_inactive_frame:
  "player (remove_inactive s) = player s \<and> game_over (remove_inactive s) = game_over s \<and>
   score (remove_inactive s) = score s \<and> running (remove_inactive s) = running s"
  by (simp add: remove_inactive_def)

lemma advance_frame:
  "p_hp (player (advance d pressed s)) = p_hp (player s) \<and>
   game_over (advance d pressed s) = game_over s \<and>
   score (advance d pressed s) = score s \<and>
   running (advance d pressed s) = running s"
  unfolding advance_def Let_def
  by (simp add: remove_inactive_frame update_entities_frame spawn_obstacle_frame
      spawn_enemy_frame scroll_frame Player_update_hp)

section \<open>Frames and reachable states\<close>

lemma handle_event_fields:
  "game_over (handle_event ev s) = (game_over s \<and> ev \<noteq> KEYDOWN K_r) \<and>
   score (handle_event ev s) = (if game_over s \<and> ev = KEYDOWN K_r then 0 else score s) \<and>
   p_hp (player (handle_event ev s))
     = (if game_over s \<and> ev = KEYDOWN K_r then 100 else p_hp (player s)) \<and>
   running (handle_event ev s) = (running s \<and> ev \<noteq> QUIT)"
proof (cases ev)
  case QUIT
  then show ?thesis by simp
next
  case (KEYDOWN k)
  then show ?thesis
    by (auto simp: Let_def fire_def restart_def Player_init_def)
next
  case OTHER_EVENT
  then show ?thesis by simp
qed

lemma handle_events_fields:
  "game_over (handle_events evs s) = (game_over s \<and> KEYDOWN K_r \<notin> set evs) \<and>
   score (handle_events evs s)
     = (if game_over s \<and> KEYDOWN K_r \<in> set evs then 0 else score s) \<and>
   p_hp (player (handle_events evs s))
     = (if game_over s \<and> KEYDOWN K_r \<in> set evs then 100 else p_hp (player s)) \<and>
   running (handle_events evs s) = (running s \<and> QUIT \<notin> set evs)"
proof (induction evs arbitrary: s)
  case Nil
  show ?case by simp
next
  case (Cons ev evs)
  note h = handle_event_fields [of ev s]
  note ih = Cons.IH [of "handle_event ev s"]
  show ?case
  proof (cases "game_over s \<and> ev = KEYDOWN K_r")
    case True
    with h have "\<not> game_over (handle_event ev s)" "score (handle_event ev s) = 0"
      "p_hp (player (handle_event ev s)) = 100" "running (handle_event ev s) = running s"
      by simp_all
    with ih True show ?thesis by simp
  next
    case False
    with h have "game_over (handle_event ev s) = game_over s"
      "score (handle_event ev s) = score s"
      "p_hp (player (handle_event ev s)) = p_hp (player s)"
      "running (handle_event ev s) = (running s \<and> ev \<noteq> QUIT)"
      by auto
    with ih False show ?thesis by auto
  qed
qed

lemma collide_lasers_frame:
  "\<exists>n. score (collide_lasers g) = score g + 100 * int n \<and>
       player (collide_lasers g) = player g \<and> game_over (collide_lasers g) = game_over g \<and>
       running (collide_lasers g) = running g"
proof -
  obtain ls' es' s' where r: "lasers_vs_enemies (lasers g) (enemies g) g = (ls', es', s')"
    by (cases "lasers_vs_enemies (lasers g) (enemies g) g")
  note c = collide_lasers_result [OF r]
  from lasers_vs_enemies_count [OF r] obtain n where "score s' = score g + 100 * int n"
    by blast
  with c lasers_vs_enemies_frame [OF r] show ?thesis
    by (intro exI [of _ n]) simp
qed

lemma update_fields:
  "\<exists>n m. score (update d pressed s) = score s + 100 * int n \<and>
     p_hp (player (update d pressed s)) = p_hp (player s) - 25 * int m \<and>
     game_over (update d pressed s)
       = (game_over s \<or> 0 < m \<and> p_hp (player s) - 25 * int m \<le> 0) \<and>
     running (update d pressed s) = running s"
proof -
  define a where "a = advance d pressed s"
  define c where "c = collide_lasers a"
  have u: "update d pressed s = collide_player c"
    by (simp add: update_def a_def c_def)
  have af: "p_hp (player a) = p_hp (player s)" "game_over a = game_over s"
    "score a = score s" "running a = running s"
    unfolding a_def by (simp_all add: advance_frame)
  from collide_lasers_frame [of a] obtain n where cf: "score c = score a + 100 * int n"
    "player c = player a" "game_over c = game_over a" "running c = running a"
    unfolding c_def by blast
  note p = collide_player_result [of c]
  from p have pf: "p_hp (player (collide_player c)) = p_hp (player c) - 25 * int (player_collisions c)"
    "game_over (collide_player c) = (game_over c \<or> 0 < player_collisions c \<and>
          p_hp (player c) - 25 * int (player_collisions c) \<le> 0)"
    "score (collide_player c) = score c" "running (collide_player c) = running c"
    by simp_all
  show ?thesis unfolding u
    by (intro exI [of _ n] exI [of _ "player_collisions c"]) (simp add: pf cf af)
qed

lemma frame_play:
  assumes "\<not> (game_over s \<and> KEYDOWN K_r \<notin> set (events inp))"
  shows "\<exists>n m. score (frame inp s) = (if game_over s then 0 else score s) + 100 * int n \<and>
     p_hp (player (frame inp s)) = (if game_over s then 100 else p_hp (player s)) - 25 * int m \<and>
     game_over (frame inp s)
       = (0 < m \<and> (if game_over s then 100 else p_hp (player s)) - 25 * int m \<le> 0)"
proof -
  define s1 where "s1 = handle_events (events inp) s"
  note h = handle_events_fields [of "events inp" s, folded s1_def]
  from h assms have g1: "\<not> game_over s1" by simp
  from h assms have f1: "score s1 = (if game_over s then 0 else score s)"
    "p_hp (player s1) = (if game_over s then 100 else p_hp (player s))"
    by auto
  from g1 have fr: "frame inp s = update (dt inp) (pressed_keys inp) s1"
    by (simp add: frame_def s1_def)
  from update_fields [of "dt inp" "pressed_keys inp" s1] obtain n m where
    u: "score (update (dt inp) (pressed_keys inp) s1) = score s1 + 100 * int n"
    "p_hp (player (update (dt inp) (pressed_keys inp) s1)) = p_hp (player s1) - 25 * int m"
    "game_over (update (dt inp) (pressed_keys inp) s1)
       = (game_over s1 \<or> 0 < m \<and> p_hp (player s1) - 25 * int m \<le> 0)"
    by blast
  show ?thesis unfolding fr
    by (intro exI [of _ n] exI [of _ m]) (simp only: u f1 g1 simp_thms)
qed

lemma frame_running:
  "running (frame inp s) = (running s \<and> QUIT \<notin> set (events inp))"
proof -
  define s1 where "s1 = handle_events (events inp) s"
  note h = handle_events_fields [of "events inp" s, folded s1_def]
  from update_fields [of "dt inp" "pressed_keys inp" s1]
  have "running (update (dt inp) (pressed_keys inp) s1) = running s1" by blast
  with h show ?thesis by (simp add: frame_def s1_def [symmetric])
qed

lemma frame_inv:
  assumes "(game_over s \<longleftrightarrow> p_hp (player s) \<le> 0) \<and> p_hp (player s) \<le> 100 \<and>
           25 dvd p_hp (player s) \<and> 0 \<le> score s \<and> 100 dvd score s"
  shows "(game_over (frame inp s) \<longleftrightarrow> p_hp (player (frame inp s)) \<le> 0) \<and>
         p_hp (player (frame inp s)) \<le> 100 \<and> 25 dvd p_hp (player (frame inp s)) \<and>
         0 \<le> score (frame inp s) \<and> 100 dvd score (frame inp s)"
proof (cases "game_over s \<and> KEYDOWN K_r \<notin> set (events inp)")
  case True
  then have "frame inp s = (if QUIT \<in> set (events inp) then s\<lparr>running := False\<rparr> else s)"
    by (simp add: frame_def handle_events_over)
  with assms show ?thesis by simp
next
  case False
  from frame_play [OF False] obtain n m where
    f: "score (frame inp s) = (if game_over s then 0 else score s) + 100 * int n"
    "p_hp (player (frame inp s)) = (if game_over s then 100 else p_hp (player s)) - 25 * int m"
    "game_over (frame inp s)
       = (0 < m \<and> (if game_over s then 100 else p_hp (player s)) - 25 * int m \<le> 0)"
    by blast
  define h where "h = (if game_over s then 100 else p_hp (player s))"
  define c where "c = (if game_over s then 0 else score s)"
  from assms have h: "0 < h" "h \<le> 100" "25 dvd h" and c: "0 \<le> c" "100 dvd c"
    unfolding h_def c_def by auto
  have "(0 < m \<and> h - 25 * int m \<le> 0) = (h - 25 * int m \<le> 0)"
    using h(1) by (cases m) auto
  moreover have "h - 25 * int m \<le> 100" using h(2) by simp
  moreover have "25 dvd h - 25 * int m" using h(3) by (simp add: dvd_diff)
  moreover have "0 \<le> c + 100 * int n" using c(1) by simp
  moreover have "100 dvd c + 100 * int n" using c(2) by (simp add: dvd_add)
  ultimately show ?thesis unfolding f h_def [symmetric] c_def [symmetric] by simp
qed

lemma reachable_inv:
  "reachable s \<Longrightarrow>
     (game_over s \<longleftrightarrow> p_hp (player s) \<le> 0) \<and> p_hp (player s) \<le> 100 \<and>
     25 dvd p_hp (player s) \<and> 0 \<le> score s \<and> 100 dvd score s"
proof (induction rule: reachable.induct)
  case (start g)
  show ?case by (simp add: initial_game_def Player_init_def)
next
  case (step s inp)
  from frame_inv [OF step.IH] show ?case .
qed

section \<open>Health and game over\<close>

lemma sqrt_less_iff: "0 < r \<Longrightarrow> (sqrt a < r) = (a < r\<^sup>2)"
proof -
  assume "0 < r"
  then have "sqrt (r\<^sup>2) = r" by simp
  then show ?thesis by (metis real_sqrt_less_iff)
qed

text \<open>
  Claim C2. Pass B, the loop of the player against the enemies and then the obstacles:
  exactly the entities that are active and at Euclidean distance strictly less than their
  radius plus 1.5 from the player are deactivated, the others are unchanged, and the
  health drops by exactly 25 for each of them; the pass sets game over exactly when one
  of its collisions leaves the health at 0 or below. In every reachable state the game
  is over exactly when the health is at most 0. A game that is over stays over, with the
  same health, through every frame without a key-down of \<open>R\<close>; a key-down of \<open>R\<close>
  while the game is over is the restart, which sets the health to 100 and the score to
  0, empties the lasers, enemies, obstacles and particles, and ends the game-over state.
\<close>

theorem player_collision:
  "enemies (collide_player s)
     = map (\<lambda>e. if player_hits (player s) (EnemyE e) then e\<lparr>e_active := False\<rparr> else e)
         (enemies s) \<and>
   obstacles (collide_player s)
     = map (\<lambda>ob. if player_hits (player s) (ObstacleE ob) then ob\<lparr>o_active := False\<rparr> else ob)
         (obstacles s) \<and>
   p_hp (player (collide_player s)) = p_hp (player s) - 25 * int (player_collisions s) \<and>
   game_over (collide_player s)
     = (game_over s \<or> 0 < player_collisions s \<and> p_hp (player (collide_player s)) \<le> 0) \<and>
   (reachable g \<longrightarrow> (game_over g \<longleftrightarrow> p_hp (player g) \<le> 0)) \<and>
   (game_over u \<and> KEYDOWN K_r \<notin> set (events inp) \<longrightarrow>
      game_over (frame inp u) \<and> p_hp (player (frame inp u)) = p_hp (player u)) \<and>
   (game_over u \<longrightarrow> handle_event (KEYDOWN K_r) u = restart u) \<and>
   p_hp (player (restart u)) = 100 \<and> score (restart u) = 0 \<and> lasers (restart u) = [] \<and>
   enemies (restart u) = [] \<and> obstacles (restart u) = [] \<and> particles (restart u) = [] \<and>
   \<not> game_over (restart u)"
proof -
  note c = collide_player_result [of s]
  from c have one:
    "enemies (collide_player s)
     = map (\<lambda>e. if player_hits (player s) (EnemyE e) then e\<lparr>e_active := False\<rparr> else e)
         (enemies s)"
    "obstacles (collide_player s)
     = map (\<lambda>ob. if player_hits (player s) (ObstacleE ob) then ob\<lparr>o_active := False\<rparr> else ob)
         (obstacles s)"
    by simp_all
  from c have hp:
    "p_hp (player (collide_player s)) = p_hp (player s) - 25 * int (player_collisions s)"
    by simp
  from c have "game_over (collide_player s)
     = (game_over s \<or> 0 < player_collisions s \<and>
          p_hp (player s) - 25 * int (player_collisions s) \<le> 0)"
    by blast
  then have go: "game_over (collide_player s)
     = (game_over s \<or> 0 < player_collisions s \<and> p_hp (player (collide_player s)) \<le> 0)"
    unfolding hp .
  have inv: "reachable g \<longrightarrow> (game_over g \<longleftrightarrow> p_hp (player g) \<le> 0)"
    using reachable_inv [of g] by blast
  have per: "game_over u \<and> KEYDOWN K_r \<notin> set (events inp) \<longrightarrow>
      game_over (frame inp u) \<and> p_hp (player (frame inp u)) = p_hp (player u)"
  proof
    assume a: "game_over u \<and> KEYDOWN K_r \<notin> set (events inp)"
    then have "frame inp u = (if QUIT \<in> set (events inp) then u\<lparr>running := False\<rparr> else u)"
      by (simp add: frame_def handle_events_over)
    with a show "game_over (frame inp u) \<and> p_hp (player (frame inp u)) = p_hp (player u)"
      by simp
  qed
  have rs: "game_over u \<longrightarrow> handle_event (KEYDOWN K_r) u = restart u"
    by (simp add: Let_def)
  have rf: "p_hp (player (restart u)) = 100" "score (restart u) = 0" "lasers (restart u) = []"
    "enemies (restart u) = []" "obstacles (restart u) = []" "particles (restart u) = []"
    "\<not> game_over (restart u)"
    by (simp_all add: restart_def Player_init_def)
  from one hp go inv per rs rf show ?thesis by blast
qed

text \<open>
  With 25 health the player collides with the enemy at its position and not with the
  obstacle 8 below: the health is 0 and the game is over. The game-over state with score
  300 survives a frame with the fire key, and restart resets it.
\<close>

theorem player_collision_witness:
  "player_hits (player hit_game) (EnemyE scenario_enemy) \<and>
   \<not> player_hits (player hit_game) (ObstacleE near_obstacle) \<and>
   p_hp (player hit_game) = 25 \<and> \<not> game_over hit_game \<and>
   enemies (collide_player hit_game) = [scenario_enemy\<lparr>e_active := False\<rparr>] \<and>
   obstacles (collide_player hit_game) = [near_obstacle] \<and>
   p_hp (player (collide_player hit_game)) = 0 \<and> game_over (collide_player hit_game) \<and>
   reachable (initial_game (sconst 0.5)) \<and> \<not> game_over (initial_game (sconst 0.5)) \<and>
   p_hp (player (initial_game (sconst 0.5))) = 100 \<and>
   game_over over_game \<and>
   game_over (frame \<lparr>dt = 1 / 60, events = [KEYDOWN K_SPACE], pressed_keys = (\<lambda>k. False)\<rparr>
                over_game) \<and>
   handle_event (KEYDOWN K_r) over_game = restart over_game \<and>
   score over_game = 300 \<and> enemies over_game = [scenario_enemy] \<and>
   score (restart over_game) = 0 \<and> enemies (restart over_game) = []"
proof -
  have h1: "player_hits (player hit_game) (EnemyE scenario_enemy)"
    by (simp add: player_hits_def hit_game_def initial_game_def Player_init_def
        scenario_enemy_def)
  have h2: "\<not> player_hits (player hit_game) (ObstacleE near_obstacle)"
    by (simp add: player_hits_def hit_game_def initial_game_def Player_init_def
        near_obstacle_def sqrt_less_iff)
  have f: "p_hp (player hit_game) = 25" "\<not> game_over hit_game"
    "enemies hit_game = [scenario_enemy]" "obstacles hit_game = [near_obstacle]"
    by (simp_all add: hit_game_def initial_game_def Player_init_def)
  have n: "player_collisions hit_game = 1"
    using h1 h2 by (simp add: player_collisions_def f)
  have r: "reachable (initial_game (sconst 0.5))" by (rule reachable.start)
  have o: "game_over over_game" "score over_game = 300" "enemies over_game = [scenario_enemy]"
    by (simp_all add: over_game_def)
  have i: "\<not> game_over (initial_game (sconst 0.5))"
    "p_hp (player (initial_game (sconst 0.5))) = 100"
    by (simp_all add: initial_game_def Player_init_def)
  from player_collision [of hit_game "initial_game (sconst 0.5)" over_game
      "\<lparr>dt = 1 / 60, events = [KEYDOWN K_SPACE], pressed_keys = (\<lambda>k. False)\<rparr>"]
    h1 h2 f n r o i
  show ?thesis by simp
qed

section \<open>The score\<close>

lemma collide_lasers_none: "lasers s = [] \<Longrightarrow> collide_lasers s = s"
  by (simp add: collide_lasers_def)

lemma scenario_update_score: "score (update 0 (\<lambda>k. False) scenario_game) = 100"
proof -
  let ?l = "Laser_init 0 0 10"
  have h: "laser_hits ?l scenario_enemy"
    by (simp add: laser_hits_def in_range_def Laser_init_def scenario_enemy_def)
  have g: "lasers scenario_game = [?l]" "enemies scenario_game = [scenario_enemy]"
    "score scenario_game = 0"
    by (simp_all add: scenario_game_def initial_game_def)
  from laser_vs_enemies_hit [of "[]" ?l scenario_enemy "[]" scenario_game] h
  have "lasers_vs_enemies [?l] [scenario_enemy] scenario_game
      = ([?l\<lparr>l_active := False\<rparr>], [scenario_enemy\<lparr>e_active := False\<rparr>],
         explosion scenario_enemy scenario_game)"
    by simp
  then have "score (collide_lasers scenario_game) = score (explosion scenario_enemy scenario_game)"
    by (simp add: collide_lasers_def g)
  then have "score (collide_lasers scenario_game) = 100"
    by (simp add: explosion_frame g)
  then show ?thesis
    by (simp add: update_def scenario_advance collide_player_result)
qed

text \<open>
  Claim C10. In every reachable state the score is a non-negative multiple of 100. It is
  0 at the start. A frame in which no restart happens (the game is not over, or the event
  queue holds no key-down of \<open>R\<close>) adds a multiple of 100 to it, so that it does not
  decrease; a frame with a restart leaves a multiple of 100. The steps of a frame change
  it in two ways only: an event resets it to 0 exactly when it is the restart, and the
  pass of lasers against enemies adds 100 for each collision (each deactivates one laser
  and one enemy); the update block before the passes and the pass of the player leave it
  unchanged.
\<close>

theorem score_steps:
  "(reachable s \<longrightarrow> 0 \<le> score s \<and> 100 dvd score s) \<and>
   score (initial_game r) = 0 \<and>
   (\<not> (game_over g \<and> KEYDOWN K_r \<in> set (events inp)) \<longrightarrow>
      score g \<le> score (frame inp g) \<and>
      (\<exists>n. score (frame inp g) = score g + 100 * int n)) \<and>
   (game_over g \<and> KEYDOWN K_r \<in> set (events inp) \<longrightarrow>
      (\<exists>n. score (frame inp g) = 100 * int n)) \<and>
   score (handle_event ev g) = (if game_over g \<and> ev = KEYDOWN K_r then 0 else score g) \<and>
   score (restart g) = 0 \<and>
   score (advance d pressed g) = score g \<and>
   (\<exists>n. score (collide_lasers g) = score g + 100 * int n \<and>
      length (filter l_active (lasers g))
        = length (filter l_active (lasers (collide_lasers g))) + n \<and>
      length (filter e_active (enemies g))
        = length (filter e_active (enemies (collide_lasers g))) + n) \<and>
   score (collide_player g) = score g"
proof -
  have one: "reachable s \<longrightarrow> 0 \<le> score s \<and> 100 dvd score s"
    using reachable_inv [of s] by blast
  have two: "score (initial_game r) = 0" by (simp add: initial_game_def)
  have three: "\<not> (game_over g \<and> KEYDOWN K_r \<in> set (events inp)) \<longrightarrow>
      score g \<le> score (frame inp g) \<and>
      (\<exists>n. score (frame inp g) = score g + 100 * int n)"
  proof
    assume a: "\<not> (game_over g \<and> KEYDOWN K_r \<in> set (events inp))"
    have "\<exists>n. score (frame inp g) = score g + 100 * int n"
    proof (cases "game_over g")
      case True
      with a have "KEYDOWN K_r \<notin> set (events inp)" by simp
      with True have "frame inp g = (if QUIT \<in> set (events inp) then g\<lparr>running := False\<rparr> else g)"
        by (simp add: frame_def handle_events_over)
      then have "score (frame inp g) = score g + 100 * int 0" by simp
      then show ?thesis by blast
    next
      case False
      then have "\<not> (game_over g \<and> KEYDOWN K_r \<notin> set (events inp))" by simp
      from frame_play [OF this] False show ?thesis by auto
    qed
    then obtain n where n: "score (frame inp g) = score g + 100 * int n" by blast
    then have "score g \<le> score (frame inp g)" by simp
    with n show "score g \<le> score (frame inp g) \<and>
      (\<exists>n. score (frame inp g) = score g + 100 * int n)" by blast
  qed
  have four: "game_over g \<and> KEYDOWN K_r \<in> set (events inp) \<longrightarrow>
      (\<exists>n. score (frame inp g) = 100 * int n)"
  proof
    assume a: "game_over g \<and> KEYDOWN K_r \<in> set (events inp)"
    then have "\<not> (game_over g \<and> KEYDOWN K_r \<notin> set (events inp))" by simp
    from frame_play [OF this] a show "\<exists>n. score (frame inp g) = 100 * int n" by auto
  qed
  have five: "score (handle_event ev g)
      = (if game_over g \<and> ev = KEYDOWN K_r then 0 else score g)"
    using handle_event_fields [of ev g] by blast
  have six: "score (restart g) = 0" by (simp add: restart_def)
  have seven: "score (advance d pressed g) = score g" by (simp add: advance_frame)
  obtain ls' es' s' where q: "lasers_vs_enemies (lasers g) (enemies g) g = (ls', es', s')"
    by (cases "lasers_vs_enemies (lasers g) (enemies g) g")
  note c = collide_lasers_result [OF q]
  from lasers_vs_enemies_count [OF q] obtain n where
    "length (filter l_active (lasers g)) = length (filter l_active ls') + n"
    "length (filter e_active (enemies g)) = length (filter e_active es') + n"
    "score s' = score g + 100 * int n"
    by blast
  with c have eight: "\<exists>n. score (collide_lasers g) = score g + 100 * int n \<and>
      length (filter l_active (lasers g))
        = length (filter l_active (lasers (collide_lasers g))) + n \<and>
      length (filter e_active (enemies g))
        = length (filter e_active (enemies (collide_lasers g))) + n"
    by (intro exI [of _ n]) simp
  have nine: "score (collide_player g) = score g" by (simp add: collide_player_result)
  from one two three four five six seven eight nine show ?thesis by blast
qed

text \<open>
  The scenario's frame scores 100 from 0; a frame while the game is over keeps the score
  of 300, and the restart event resets it.
\<close>

theorem score_steps_witness:
  "reachable (initial_game (sconst 0.5)) \<and> score (initial_game (sconst 0.5)) = 0 \<and>
   \<not> game_over scenario_game \<and> score scenario_game = 0 \<and>
   score (frame \<lparr>dt = 0, events = [], pressed_keys = (\<lambda>k. False)\<rparr> scenario_game) = 100 \<and>
   game_over over_game \<and> score over_game = 300 \<and>
   score (frame \<lparr>dt = 1 / 60, events = [OTHER_EVENT], pressed_keys = (\<lambda>k. False)\<rparr> over_game)
     = 300 \<and>
   score (handle_event (KEYDOWN K_r) over_game) = 0"
proof -
  have r: "reachable (initial_game (sconst 0.5))" by (rule reachable.start)
  have g: "\<not> game_over scenario_game" "score scenario_game = 0"
    by (simp_all add: scenario_game_def initial_game_def)
  have f: "score (frame \<lparr>dt = 0, events = [], pressed_keys = (\<lambda>k. False)\<rparr> scenario_game) = 100"
    using g(1) by (simp add: frame_def scenario_update_score)
  have o: "game_over over_game" "score over_game = 300"
    by (simp_all add: over_game_def)
  have e: "frame \<lparr>dt = 1 / 60, events = [OTHER_EVENT], pressed_keys = (\<lambda>k. False)\<rparr> over_game
      = over_game"
    using o(1) by (simp add: frame_def)
  from score_steps [of "initial_game (sconst 0.5)" "sconst 0.5" scenario_game
      "\<lparr>dt = 0, events = [], pressed_keys = (\<lambda>k. False)\<rparr>" OTHER_EVENT 0 "\<lambda>k. False"]
    score_steps [of "initial_game (sconst 0.5)" "sconst 0.5" over_game
      "\<lparr>dt = 1 / 60, events = [OTHER_EVENT], pressed_keys = (\<lambda>k. False)\<rparr>" "KEYDOWN K_r" 0
      "\<lambda>k. False"]
    r g f o e
  show ?thesis by simp
qed

section \<open>Health\<close>

lemma Player_update_idle: "Player_update d (\<lambda>k. False) Player_init = Player_init"
  by (simp add: Player_update_def Player_init_def Let_def)

lemma scroll_fields:
  "player (scroll d s) = player s \<and> lasers (scroll d s) = lasers s \<and>
   enemies (scroll d s) = enemies s \<and> obstacles (scroll d s) = obstacles s \<and>
   rng_state (scroll d s) = rng_state s \<and> game_over (scroll d s) = game_over s"
  by (simp add: scroll_def Let_def)

lemma spawn_enemy_hit:
  "rng_state s = u ## a ## b ## c ## g \<Longrightarrow> u < 0.02 \<Longrightarrow>
     spawn_enemy s =
       s\<lparr>enemies := enemies s @
            [\<lparr>e_x = - 15 + (15 - (- 15)) * a, e_y = - 5 + (10 - (- 5)) * b, e_z = 150,
              e_speed = 20 + (40 - 20) * c, e_active = True, e_radius = 1.5\<rparr>],
         rng_state := g\<rparr>"
  by (simp add: spawn_enemy_def Enemy_init_def random_uniform_def random_random_def)

lemma spawn_enemy_miss:
  "rng_state s = u ## g \<Longrightarrow> \<not> u < 0.02 \<Longrightarrow> spawn_enemy s = s\<lparr>rng_state := g\<rparr>"
  by (simp add: spawn_enemy_def random_random_def)

lemma spawn_obstacle_miss:
  "rng_state s = u ## g \<Longrightarrow> \<not> u < 0.03 \<Longrightarrow> spawn_obstacle s = s\<lparr>rng_state := g\<rparr>"
  by (simp add: spawn_obstacle_def random_random_def)

lemma Enemy_update_new:
  "0 \<le> z - 20 * d \<Longrightarrow> Enemy_update d (new_enemy z) = new_enemy (z - 20 * d)"
  by (simp add: Enemy_update_def new_enemy_def Let_def)

lemma player_hits_new:
  "player_hits Player_init (EnemyE (new_enemy z)) = (\<bar>10 - z\<bar> < 3)"
  by (simp add: player_hits_def Player_init_def new_enemy_def)

lemma player_vs_entities_miss:
  "\<forall>en\<in>set ens. \<not> player_hits (player s) en \<Longrightarrow> player_vs_entities ens s = (ens, s)"
  by (induction ens) (simp_all add: player_entity_eq)

lemma collide_player_miss: "player_collisions s = 0 \<Longrightarrow> collide_player s = s"
proof -
  assume "player_collisions s = 0"
  then have "\<forall>en\<in>set (map EnemyE (enemies s) @ map ObstacleE (obstacles s)).
      \<not> player_hits (player s) en"
    unfolding player_collisions_def by (simp only: length_0_conv filter_empty_conv)
  from player_vs_entities_miss [OF this] show ?thesis
    by (simp add: collide_player_def enemies_of_append obstacles_of_append)
qed

lemma frame_quiet:
  assumes "events inp = []" and "\<not> game_over s"
    and "lasers (advance (dt inp) (pressed_keys inp) s) = []"
  shows "frame inp s = collide_player (advance (dt inp) (pressed_keys inp) s)"
  using assms by (simp add: frame_def update_def collide_lasers_none)

lemma Enemy_update_news:
  "\<forall>z\<in>set ws. 0 \<le> z - 20 * d \<Longrightarrow>
     map (Enemy_update d) (map new_enemy ws) = map new_enemy (map (\<lambda>z. z - 20 * d) ws)"
  by (induction ws) (simp_all add: Enemy_update_new)

lemma filter_active_news: "filter e_active (map new_enemy ws) = map new_enemy ws"
  by (induction ws) (simp_all add: new_enemy_def)

text \<open>The update block of a frame that spawns an enemy and no obstacle.\<close>

lemma advance_spawn:
  assumes c: "calm s zs (spawn_draws @- g)" and z: "\<forall>z\<in>set (zs @ [150]). 0 \<le> z - 20 * d"
  shows "calm (advance d (\<lambda>k. False) s) (map (\<lambda>z. z - 20 * d) (zs @ [150])) g"
proof -
  from c have f: "player s = Player_init" "lasers s = []" "obstacles s = []"
    "enemies s = map new_enemy zs" "\<not> game_over s"
    "rng_state s = 0 ## (1 / 2) ## (1 / 3) ## 0 ## (1 / 2) ## g"
    by (simp_all add: calm_def spawn_draws_def)
  define s1 where "s1 = s\<lparr>player := Player_update d (\<lambda>k. False) (player s)\<rparr>"
  define s2 where "s2 = scroll d s1"
  define s3 where "s3 = spawn_enemy s2"
  define s4 where "s4 = spawn_obstacle s3"
  define s5 where "s5 = update_entities d s4"
  have a: "advance d (\<lambda>k. False) s = remove_inactive s5"
    by (simp add: advance_def Let_def s1_def s2_def s3_def s4_def s5_def)
  have f1: "player s1 = Player_init" "lasers s1 = []" "obstacles s1 = []"
    "enemies s1 = map new_enemy zs" "\<not> game_over s1"
    "rng_state s1 = 0 ## (1 / 2) ## (1 / 3) ## 0 ## (1 / 2) ## g"
    using f by (simp_all add: s1_def Player_update_idle)
  have f2: "player s2 = Player_init" "lasers s2 = []" "obstacles s2 = []"
    "enemies s2 = map new_enemy zs" "\<not> game_over s2"
    "rng_state s2 = 0 ## (1 / 2) ## (1 / 3) ## 0 ## (1 / 2) ## g"
    using f1 by (simp_all add: s2_def scroll_fields)
  have "spawn_enemy s2 =
       s2\<lparr>enemies := enemies s2 @
            [\<lparr>e_x = - 15 + (15 - (- 15)) * (1 / 2), e_y = - 5 + (10 - (- 5)) * (1 / 3),
              e_z = 150, e_speed = 20 + (40 - 20) * 0, e_active = True, e_radius = 1.5\<rparr>],
         rng_state := (1 / 2) ## g\<rparr>"
    by (rule spawn_enemy_hit [OF f2(6)]) simp
  then have e3: "s3 = s2\<lparr>enemies := map new_enemy (zs @ [150]), rng_state := (1 / 2) ## g\<rparr>"
    by (simp add: s3_def f2 new_enemy_def)
  have r3: "rng_state s3 = (1 / 2) ## g" by (simp add: e3)
  have "spawn_obstacle s3 = s3\<lparr>rng_state := g\<rparr>"
    by (rule spawn_obstacle_miss [OF r3]) simp
  then have e4: "s4 = s2\<lparr>enemies := map new_enemy (zs @ [150]), rng_state := g\<rparr>"
    by (simp add: s4_def e3)
  have f5: "player s5 = Player_init" "lasers s5 = []" "obstacles s5 = []"
    "enemies s5 = map new_enemy (map (\<lambda>z. z - 20 * d) (zs @ [150]))" "\<not> game_over s5"
    "rng_state s5 = g"
    using f2 Enemy_update_news [OF z] by (simp_all add: s5_def e4 update_entities_def)
  have "enemies (remove_inactive s5) = filter e_active (enemies s5)"
    by (simp add: remove_inactive_def)
  then have e6: "enemies (remove_inactive s5) = map new_enemy (map (\<lambda>z. z - 20 * d) (zs @ [150]))"
    unfolding f5(4) filter_active_news .
  have "player (remove_inactive s5) = Player_init" "lasers (remove_inactive s5) = []"
    "obstacles (remove_inactive s5) = []" "\<not> game_over (remove_inactive s5)"
    "rng_state (remove_inactive s5) = g"
    using f5 by (simp_all add: remove_inactive_def)
  with e6 show ?thesis unfolding a calm_def by simp
qed

text \<open>The update block of a frame that spawns nothing.\<close>

lemma advance_nospawn:
  assumes c: "calm s zs (sconst (1 / 2))" and z: "\<forall>z\<in>set zs. 0 \<le> z - 20 * d"
  shows "calm (advance d (\<lambda>k. False) s) (map (\<lambda>z. z - 20 * d) zs) (sconst (1 / 2))"
proof -
  from c have f: "player s = Player_init" "lasers s = []" "obstacles s = []"
    "enemies s = map new_enemy zs" "\<not> game_over s"
    "rng_state s = sconst (1 / 2)"
    by (simp_all add: calm_def)
  define s1 where "s1 = s\<lparr>player := Player_update d (\<lambda>k. False) (player s)\<rparr>"
  define s2 where "s2 = scroll d s1"
  define s3 where "s3 = spawn_enemy s2"
  define s4 where "s4 = spawn_obstacle s3"
  define s5 where "s5 = update_entities d s4"
  have a: "advance d (\<lambda>k. False) s = remove_inactive s5"
    by (simp add: advance_def Let_def s1_def s2_def s3_def s4_def s5_def)
  have f2: "player s2 = Player_init" "lasers s2 = []" "obstacles s2 = []"
    "enemies s2 = map new_enemy zs" "\<not> game_over s2"
    "rng_state s2 = sconst (1 / 2)"
    using f by (simp_all add: s2_def s1_def scroll_fields Player_update_idle)
  have e3: "s3 = s2"
    by (simp add: s3_def spawn_enemy_def random_random_def f2(6))
  have e4: "s4 = s2"
    by (simp add: s4_def e3 spawn_obstacle_def random_random_def f2(6))
  have f5: "player s5 = Player_init" "lasers s5 = []" "obstacles s5 = []"
    "enemies s5 = map new_enemy (map (\<lambda>z. z - 20 * d) zs)" "\<not> game_over s5"
    "rng_state s5 = sconst (1 / 2)"
    using f2 Enemy_update_news [OF z] by (simp_all add: s5_def e4 update_entities_def)
  have "enemies (remove_inactive s5) = filter e_active (enemies s5)"
    by (simp add: remove_inactive_def)
  then have e6: "enemies (remove_inactive s5) = map new_enemy (map (\<lambda>z. z - 20 * d) zs)"
    unfolding f5(4) filter_active_news .
  have "player (remove_inactive s5) = Player_init" "lasers (remove_inactive s5) = []"
    "obstacles (remove_inactive s5) = []" "\<not> game_over (remove_inactive s5)"
    "rng_state (remove_inactive s5) = sconst (1 / 2)"
    using f5 by (simp_all add: remove_inactive_def)
  with e6 show ?thesis unfolding a calm_def by simp
qed

lemma player_collisions_calm:
  "calm s ws g \<Longrightarrow> player_collisions s = length (filter (\<lambda>w. \<bar>10 - w\<bar> < 3) ws)"
  by (simp add: calm_def player_collisions_def filter_map o_def player_hits_new)

lemma frame_spawn_calm:
  assumes c: "calm s zs (spawn_draws @- g)"
    and z: "\<forall>z\<in>set (zs @ [150]). 0 \<le> z - 20 * d \<and> \<not> \<bar>10 - (z - 20 * d)\<bar> < 3"
  shows "calm (frame \<lparr>dt = d, events = [], pressed_keys = (\<lambda>k. False)\<rparr> s)
           (map (\<lambda>z. z - 20 * d) (zs @ [150])) g"
proof -
  define a where "a = advance d (\<lambda>k. False) s"
  from z have "\<forall>z\<in>set (zs @ [150]). 0 \<le> z - 20 * d" by blast
  from advance_spawn [OF c this] have ca: "calm a (map (\<lambda>z. z - 20 * d) (zs @ [150])) g"
    unfolding a_def .
  from z have "\<forall>w\<in>set (map (\<lambda>z. z - 20 * d) (zs @ [150])). \<not> \<bar>10 - w\<bar> < 3"
    by auto
  then have fe: "filter (\<lambda>w. \<bar>10 - w\<bar> < 3) (map (\<lambda>z. z - 20 * d) (zs @ [150])) = []"
    by (simp only: filter_empty_conv)
  have n: "player_collisions a = 0"
    unfolding player_collisions_calm [OF ca] fe by simp
  from c have "\<not> game_over s" by (simp add: calm_def)
  moreover from ca have "lasers a = []" by (simp add: calm_def)
  ultimately have "frame \<lparr>dt = d, events = [], pressed_keys = (\<lambda>k. False)\<rparr> s = collide_player a"
    using frame_quiet [of "\<lparr>dt = d, events = [], pressed_keys = (\<lambda>k. False)\<rparr>" s]
    by (simp add: a_def)
  with collide_player_miss [OF n] ca show ?thesis by simp
qed

lemma frame_stall_calm:
  assumes c: "calm s zs (sconst (1 / 2))" and z: "\<forall>z\<in>set zs. 0 \<le> z - 20 * d"
  shows "p_hp (player (frame \<lparr>dt = d, events = [], pressed_keys = (\<lambda>k. False)\<rparr> s))
           = 100 - 25 * int (length (filter (\<lambda>w. \<bar>10 - w\<bar> < 3) (map (\<lambda>z. z - 20 * d) zs)))"
proof -
  define a where "a = advance d (\<lambda>k. False) s"
  from advance_nospawn [OF c z] have ca: "calm a (map (\<lambda>z. z - 20 * d) zs) (sconst (1 / 2))"
    unfolding a_def .
  note n = player_collisions_calm [OF ca]
  from c have "\<not> game_over s" by (simp add: calm_def)
  moreover from ca have "lasers a = []" by (simp add: calm_def)
  ultimately have "frame \<lparr>dt = d, events = [], pressed_keys = (\<lambda>k. False)\<rparr> s = collide_player a"
    using frame_quiet [of "\<lparr>dt = d, events = [], pressed_keys = (\<lambda>k. False)\<rparr>" s]
    by (simp add: a_def)
  moreover from ca have "p_hp (player a) = 100" by (simp add: calm_def Player_init_def)
  ultimately show ?thesis using collide_player_result [of a] n by simp
qed

lemma reachable_run_frames:
  "reachable s \<Longrightarrow> running s \<Longrightarrow> \<forall>inp\<in>set inps. QUIT \<notin> set (events inp) \<Longrightarrow>
     reachable (run_frames inps s)"
proof (induction inps arbitrary: s)
  case Nil
  then show ?case by simp
next
  case (Cons inp inps)
  from Cons.prems have "reachable (frame inp s)" "running (frame inp s)"
    by (simp_all add: reachable.step frame_running)
  with Cons.IH [of "frame inp s"] Cons.prems(3) show ?case by simp
qed

lemma pile_up_state: "reachable pile_up \<and> p_hp (player pile_up) = - 25"
proof -
  define g1 where "g1 = spawn_draws @- spawn_draws @- spawn_draws @- spawn_draws @- sconst (1 / 2)"
  define g2 where "g2 = spawn_draws @- spawn_draws @- spawn_draws @- sconst (1 / 2)"
  define g3 where "g3 = spawn_draws @- spawn_draws @- sconst (1 / 2)"
  define g4 where "g4 = spawn_draws @- sconst (1 / 2)"
  define s0 where "s0 = initial_game pile_up_rng"
  define s1 where "s1 = frame spawn_frame s0"
  define s2 where "s2 = frame spawn_frame s1"
  define s3 where "s3 = frame spawn_frame s2"
  define s4 where "s4 = frame spawn_frame s3"
  define s5 where "s5 = frame spawn_frame s4"
  have c0: "calm s0 [] (spawn_draws @- g1)"
    by (simp add: calm_def s0_def initial_game_def pile_up_rng_def g1_def)
  have c1: "calm s1 [149.6] (spawn_draws @- g2)"
    using frame_spawn_calm [OF c0, of "1 / 50"]
    by (simp add: s1_def spawn_frame_def g1_def g2_def)
  have c2: "calm s2 [149.2, 149.6] (spawn_draws @- g3)"
    using frame_spawn_calm [OF c1, of "1 / 50"]
    by (simp add: s2_def spawn_frame_def g2_def g3_def)
  have c3: "calm s3 [148.8, 149.2, 149.6] (spawn_draws @- g4)"
    using frame_spawn_calm [OF c2, of "1 / 50"]
    by (simp add: s3_def spawn_frame_def g3_def g4_def)
  have c4: "calm s4 [148.4, 148.8, 149.2, 149.6] (spawn_draws @- sconst (1 / 2))"
    using frame_spawn_calm [OF c3, of "1 / 50"]
    by (simp add: s4_def spawn_frame_def g4_def)
  have c5: "calm s5 [148, 148.4, 148.8, 149.2, 149.6] (sconst (1 / 2))"
    using frame_spawn_calm [OF c4, of "1 / 50"]
    by (simp add: s5_def spawn_frame_def)
  have p: "pile_up = frame stall_frame s5"
    by (simp add: pile_up_def s5_def s4_def s3_def s2_def s1_def s0_def)
  have hp: "p_hp (player pile_up) = - 25"
    unfolding p using frame_stall_calm [OF c5, of 7]
    by (simp add: stall_frame_def)
  have "reachable (initial_game pile_up_rng)" by (rule reachable.start)
  moreover have "running (initial_game pile_up_rng)" by (simp add: initial_game_def)
  ultimately have "reachable pile_up"
    unfolding pile_up_def
    by (rule reachable_run_frames) (simp add: spawn_frame_def stall_frame_def)
  with hp show ?thesis by simp
qed

text \<open>
  Health has no floor at 0. The run \<open>pile_up\<close> is reachable from the start; in its last
  frame the five enemies are at depths 8, 8.4, 8.8, 9.2 and 9.6, all within 3 of the
  player at depth 10, so the pass of the player subtracts 25 five times from a health of
  100: the health is \<open>-25\<close>.
\<close>

theorem health_below_zero:
  "reachable pile_up \<and> p_hp (player pile_up) = - 25 \<and> \<not> 0 \<le> p_hp (player pile_up)"
  using pile_up_state by simp

text \<open>
  Claim C6, as it holds. In every reachable state the health is at most 100 and a
  multiple of 25, it is at most 0 exactly when the game is over, and at least 25 while
  the game is not over. It is not bounded below by 0: the pass of the player subtracts 25
  for every collision of the pass, whatever the health, and nothing else writes it but
  the restart, which sets it to 100.
\<close>

theorem health_range:
  "(reachable s \<longrightarrow>
      p_hp (player s) \<le> 100 \<and> 25 dvd p_hp (player s) \<and>
      (game_over s \<longleftrightarrow> p_hp (player s) \<le> 0) \<and>
      (\<not> game_over s \<longrightarrow> 25 \<le> p_hp (player s))) \<and>
   p_hp (player (collide_player g)) = p_hp (player g) - 25 * int (player_collisions g) \<and>
   p_hp (player (advance d pressed g)) = p_hp (player g) \<and>
   p_hp (player (collide_lasers g)) = p_hp (player g) \<and>
   p_hp (player (handle_event ev g))
     = (if game_over g \<and> ev = KEYDOWN K_r then 100 else p_hp (player g))"
proof -
  have one: "reachable s \<longrightarrow>
      p_hp (player s) \<le> 100 \<and> 25 dvd p_hp (player s) \<and>
      (game_over s \<longleftrightarrow> p_hp (player s) \<le> 0) \<and>
      (\<not> game_over s \<longrightarrow> 25 \<le> p_hp (player s))"
  proof
    assume "reachable s"
    from reachable_inv [OF this] have i: "game_over s \<longleftrightarrow> p_hp (player s) \<le> 0"
      "p_hp (player s) \<le> 100" "25 dvd p_hp (player s)"
      by blast+
    have "25 \<le> p_hp (player s)" if "\<not> game_over s"
    proof -
      from that i(1) have "0 < p_hp (player s)" by simp
      with i(3) show ?thesis by (auto elim!: dvdE)
    qed
    with i show "p_hp (player s) \<le> 100 \<and> 25 dvd p_hp (player s) \<and>
      (game_over s \<longleftrightarrow> p_hp (player s) \<le> 0) \<and>
      (\<not> game_over s \<longrightarrow> 25 \<le> p_hp (player s))"
      by blast
  qed
  have two: "p_hp (player (collide_player g)) = p_hp (player g) - 25 * int (player_collisions g)"
    using collide_player_result [of g] by simp
  have three: "p_hp (player (advance d pressed g)) = p_hp (player g)"
    by (simp add: advance_frame)
  have four: "p_hp (player (collide_lasers g)) = p_hp (player g)"
    using collide_lasers_frame [of g] by auto
  have five: "p_hp (player (handle_event ev g))
     = (if game_over g \<and> ev = KEYDOWN K_r then 100 else p_hp (player g))"
    using handle_event_fields [of ev g] by blast
  from one two three four five show ?thesis by blast
qed

text \<open>
  The reachable state \<open>pile_up\<close>, over with health \<open>-25\<close>; the initial state; and one
  collision from a health of 25.
\<close>

theorem health_range_witness:
  "reachable pile_up \<and> p_hp (player pile_up) = - 25 \<and> game_over pile_up \<and>
   reachable (initial_game (sconst 0.5)) \<and> \<not> game_over (initial_game (sconst 0.5)) \<and>
   p_hp (player (initial_game (sconst 0.5))) = 100 \<and>
   player_collisions hit_game = 1 \<and> p_hp (player hit_game) = 25 \<and>
   p_hp (player (collide_player hit_game)) = 0"
proof -
  have h1: "player_hits (player hit_game) (EnemyE scenario_enemy)"
    by (simp add: player_hits_def hit_game_def initial_game_def Player_init_def
        scenario_enemy_def)
  have h2: "\<not> player_hits (player hit_game) (ObstacleE near_obstacle)"
    by (simp add: player_hits_def hit_game_def initial_game_def Player_init_def
        near_obstacle_def sqrt_less_iff)
  have f: "p_hp (player hit_game) = 25"
    "enemies hit_game = [scenario_enemy]" "obstacles hit_game = [near_obstacle]"
    by (simp_all add: hit_game_def initial_game_def Player_init_def)
  have n: "player_collisions hit_game = 1"
    using h1 h2 by (simp add: player_collisions_def f)
  have r: "reachable (initial_game (sconst 0.5))" by (rule reachable.start)
  have i: "\<not> game_over (initial_game (sconst 0.5))"
    "p_hp (player (initial_game (sconst 0.5))) = 100"
    by (simp_all add: initial_game_def Player_init_def)
  from health_range [of pile_up hit_game 0 "\<lambda>k. False" OTHER_EVENT]
    health_range [of "initial_game (sconst 0.5)" hit_game 0 "\<lambda>k. False" OTHER_EVENT]
    pile_up_state n f r i
  show ?thesis by simp
qed

section \<open>The order of the collision checks\<close>

lemma length_filter_mset:
  "mset xs = mset ys \<Longrightarrow> length (filter P xs) = length (filter P ys)"
proof -
  assume "mset xs = mset ys"
  then have "size (filter_mset P (mset xs)) = size (filter_mset P (mset ys))" by simp
  then show ?thesis by (simp only: mset_filter [symmetric] size_mset)
qed

lemma mset_map_cong: "mset xs = mset ys \<Longrightarrow> mset (map f xs) = mset (map f ys)"
  by (metis mset_map)

lemma laser_hits_new:
  "laser_hits (Laser_init 0 0 a) (new_enemy z) = (\<bar>a - z\<bar> < 5 / 2)"
  by (simp add: laser_hits_def in_range_def Laser_init_def new_enemy_def)

lemma crossfire_back_first:
  "score (collide_player (collide_lasers (crossfire [new_enemy 14, new_enemy 12]))) = 100 \<and>
   p_hp (player (collide_player (collide_lasers (crossfire [new_enemy 14, new_enemy 12])))) = 75 \<and>
   map l_active (lasers (collide_player (collide_lasers (crossfire [new_enemy 14, new_enemy 12]))))
     = [False, True]"
proof -
  define s where "s = crossfire [new_enemy 14, new_enemy 12]"
  define c where "c = collide_lasers s"
  have f: "lasers s = [near_laser, far_laser]" "enemies s = [new_enemy 14, new_enemy 12]"
    "score s = 0" "player s = Player_init" "obstacles s = []"
    by (simp_all add: s_def crossfire_def initial_game_def)
  have h1: "laser_hits near_laser (new_enemy 14)"
    by (simp add: near_laser_def laser_hits_new)
  from laser_vs_enemies_hit [of "[]" near_laser "new_enemy 14" "[new_enemy 12]" s] h1
  have i1: "laser_vs_enemies near_laser [new_enemy 14, new_enemy 12] s
      = (near_laser\<lparr>l_active := False\<rparr>, [(new_enemy 14)\<lparr>e_active := False\<rparr>, new_enemy 12],
         explosion (new_enemy 14) s)"
    by simp
  have "\<forall>e\<in>set [(new_enemy 14)\<lparr>e_active := False\<rparr>, new_enemy 12]. \<not> laser_hits far_laser e"
    by (simp add: far_laser_def laser_hits_new) (simp add: laser_hits_def)
  from laser_vs_enemies_miss [OF this]
  have i2: "laser_vs_enemies far_laser [(new_enemy 14)\<lparr>e_active := False\<rparr>, new_enemy 12]
        (explosion (new_enemy 14) s)
      = (far_laser, [(new_enemy 14)\<lparr>e_active := False\<rparr>, new_enemy 12],
         explosion (new_enemy 14) s)" .
  have r: "lasers_vs_enemies (lasers s) (enemies s) s
      = ([near_laser\<lparr>l_active := False\<rparr>, far_laser],
         [(new_enemy 14)\<lparr>e_active := False\<rparr>, new_enemy 12], explosion (new_enemy 14) s)"
    unfolding f by (simp only: lasers_vs_enemies.simps i1 i2 prod.case)
  note cr = collide_lasers_result [OF r, folded c_def]
  have cf: "lasers c = [near_laser\<lparr>l_active := False\<rparr>, far_laser]"
    "enemies c = [(new_enemy 14)\<lparr>e_active := False\<rparr>, new_enemy 12]"
    "score c = 100" "player c = Player_init" "obstacles c = []"
    using cr by (simp_all add: explosion_frame f)
  have n: "player_collisions c = 1"
    by (simp add: player_collisions_def cf player_hits_new) (simp add: player_hits_def)
  from collide_player_result [of c] n cf
  have "score (collide_player c) = 100" "p_hp (player (collide_player c)) = 75"
    "lasers (collide_player c) = [near_laser\<lparr>l_active := False\<rparr>, far_laser]"
    by (simp_all add: Player_init_def)
  then show ?thesis
    unfolding c_def s_def by (simp add: far_laser_def Laser_init_def)
qed

lemma crossfire_front_first:
  "score (collide_player (collide_lasers (crossfire [new_enemy 12, new_enemy 14]))) = 200 \<and>
   p_hp (player (collide_player (collide_lasers (crossfire [new_enemy 12, new_enemy 14])))) = 100 \<and>
   map l_active (lasers (collide_player (collide_lasers (crossfire [new_enemy 12, new_enemy 14]))))
     = [False, False]"
proof -
  define s where "s = crossfire [new_enemy 12, new_enemy 14]"
  define c where "c = collide_lasers s"
  have f: "lasers s = [near_laser, far_laser]" "enemies s = [new_enemy 12, new_enemy 14]"
    "score s = 0" "player s = Player_init" "obstacles s = []"
    by (simp_all add: s_def crossfire_def initial_game_def)
  have h1: "laser_hits near_laser (new_enemy 12)"
    by (simp add: near_laser_def laser_hits_new)
  from laser_vs_enemies_hit [of "[]" near_laser "new_enemy 12" "[new_enemy 14]" s] h1
  have i1: "laser_vs_enemies near_laser [new_enemy 12, new_enemy 14] s
      = (near_laser\<lparr>l_active := False\<rparr>, [(new_enemy 12)\<lparr>e_active := False\<rparr>, new_enemy 14],
         explosion (new_enemy 12) s)"
    by simp
  have m: "\<forall>e\<in>set [(new_enemy 12)\<lparr>e_active := False\<rparr>]. \<not> laser_hits far_laser e"
    by (simp add: laser_hits_def)
  have h2: "laser_hits far_laser (new_enemy 14)"
    by (simp add: far_laser_def laser_hits_new)
  from laser_vs_enemies_hit [OF m h2, of "[]" "explosion (new_enemy 12) s"]
  have i2: "laser_vs_enemies far_laser [(new_enemy 12)\<lparr>e_active := False\<rparr>, new_enemy 14]
        (explosion (new_enemy 12) s)
      = (far_laser\<lparr>l_active := False\<rparr>,
         [(new_enemy 12)\<lparr>e_active := False\<rparr>, (new_enemy 14)\<lparr>e_active := False\<rparr>],
         explosion (new_enemy 14) (explosion (new_enemy 12) s))"
    by simp
  have r: "lasers_vs_enemies (lasers s) (enemies s) s
      = ([near_laser\<lparr>l_active := False\<rparr>, far_laser\<lparr>l_active := False\<rparr>],
         [(new_enemy 12)\<lparr>e_active := False\<rparr>, (new_enemy 14)\<lparr>e_active := False\<rparr>],
         explosion (new_enemy 14) (explosion (new_enemy 12) s))"
    unfolding f by (simp only: lasers_vs_enemies.simps i1 i2 prod.case)
  note cr = collide_lasers_result [OF r, folded c_def]
  have cf: "lasers c = [near_laser\<lparr>l_active := False\<rparr>, far_laser\<lparr>l_active := False\<rparr>]"
    "enemies c = [(new_enemy 12)\<lparr>e_active := False\<rparr>, (new_enemy 14)\<lparr>e_active := False\<rparr>]"
    "score c = 200" "player c = Player_init" "obstacles c = []"
    using cr by (simp_all add: explosion_frame f)
  have n: "player_collisions c = 0"
    by (simp add: player_collisions_def cf player_hits_def)
  from collide_player_result [of c] n cf
  have "score (collide_player c) = 200" "p_hp (player (collide_player c)) = 100"
    "lasers (collide_player c) = [near_laser\<lparr>l_active := False\<rparr>, far_laser\<lparr>l_active := False\<rparr>]"
    by (simp_all add: Player_init_def)
  then show ?thesis
    unfolding c_def s_def by simp
qed

lemma player_collisions_perm:
  assumes "mset es2 = mset (enemies s)" and "mset os2 = mset (obstacles s)"
  shows "player_collisions (s\<lparr>enemies := es2, obstacles := os2\<rparr>) = player_collisions s"
proof -
  have "mset (map EnemyE es2 @ map ObstacleE os2)
      = mset (map EnemyE (enemies s) @ map ObstacleE (obstacles s))"
    using assms by (simp add: mset_map_cong)
  from length_filter_mset [OF this] show ?thesis
    by (simp add: player_collisions_def)
qed

text \<open>
  The outcome of the two passes depends on the order of the enemies in their list, which
  is the order in which the inner loop of a laser visits them. With the enemy at depth 14
  first, the laser at 13 consumes it, the laser at 16 reaches nothing, and the enemy at
  12 then collides with the player: score 100, health 75, one laser left active. With
  the enemy at depth 12 first, the laser at 13 consumes that one, the laser at 16
  consumes the enemy at 14, and nothing is left for the player: score 200, health 100,
  no laser left active.
\<close>

theorem collision_order_matters:
  "mset [new_enemy 12, new_enemy 14] = mset [new_enemy 14, new_enemy 12] \<and>
   score (collide_player (collide_lasers (crossfire [new_enemy 14, new_enemy 12]))) = 100 \<and>
   p_hp (player (collide_player (collide_lasers (crossfire [new_enemy 14, new_enemy 12])))) = 75 \<and>
   map l_active (lasers (collide_player (collide_lasers (crossfire [new_enemy 14, new_enemy 12]))))
     = [False, True] \<and>
   score (collide_player (collide_lasers (crossfire [new_enemy 12, new_enemy 14]))) = 200 \<and>
   p_hp (player (collide_player (collide_lasers (crossfire [new_enemy 12, new_enemy 14])))) = 100 \<and>
   map l_active (lasers (collide_player (collide_lasers (crossfire [new_enemy 12, new_enemy 14]))))
     = [False, False]"
  using crossfire_back_first crossfire_front_first by simp

text \<open>
  Claim C8, as it holds. The outcome of the pass of the player against the entities is
  the same for every order of the checks: for any two lists that hold the same entities,
  the loop deactivates the same entities and leaves the same player (so the same
  health), the same game-over flag, the same score and as many particles; and so does
  the pass on a game state whose enemies and obstacles are listed in another order. The
  pass of the lasers against the enemies has no such property: a laser consumes the
  first enemy of the list that it is in range of, and leaves the enemies after that one
  as they are, also those in range.
\<close>

theorem player_pass_order:
  "(mset ens2 = mset ens \<longrightarrow>
      mset (fst (player_vs_entities ens2 s)) = mset (fst (player_vs_entities ens s)) \<and>
      player (snd (player_vs_entities ens2 s)) = player (snd (player_vs_entities ens s)) \<and>
      game_over (snd (player_vs_entities ens2 s)) = game_over (snd (player_vs_entities ens s)) \<and>
      score (snd (player_vs_entities ens2 s)) = score (snd (player_vs_entities ens s)) \<and>
      length (particles (snd (player_vs_entities ens2 s)))
        = length (particles (snd (player_vs_entities ens s)))) \<and>
   (mset es2 = mset (enemies g) \<and> mset os2 = mset (obstacles g) \<longrightarrow>
      player (collide_player (g\<lparr>enemies := es2, obstacles := os2\<rparr>))
        = player (collide_player g) \<and>
      game_over (collide_player (g\<lparr>enemies := es2, obstacles := os2\<rparr>))
        = game_over (collide_player g) \<and>
      score (collide_player (g\<lparr>enemies := es2, obstacles := os2\<rparr>))
        = score (collide_player g) \<and>
      mset (enemies (collide_player (g\<lparr>enemies := es2, obstacles := os2\<rparr>)))
        = mset (enemies (collide_player g)) \<and>
      mset (obstacles (collide_player (g\<lparr>enemies := es2, obstacles := os2\<rparr>)))
        = mset (obstacles (collide_player g))) \<and>
   (laser_hits l e \<and> (\<forall>x\<in>set pre. \<not> laser_hits l x) \<longrightarrow>
      fst (laser_vs_enemies l (pre @ e # post) s) = l\<lparr>l_active := False\<rparr> \<and>
      fst (snd (laser_vs_enemies l (pre @ e # post) s))
        = pre @ e\<lparr>e_active := False\<rparr> # post)"
proof -
  have one: "mset (fst (player_vs_entities ens2 s)) = mset (fst (player_vs_entities ens s)) \<and>
      player (snd (player_vs_entities ens2 s)) = player (snd (player_vs_entities ens s)) \<and>
      game_over (snd (player_vs_entities ens2 s)) = game_over (snd (player_vs_entities ens s)) \<and>
      score (snd (player_vs_entities ens2 s)) = score (snd (player_vs_entities ens s)) \<and>
      length (particles (snd (player_vs_entities ens2 s)))
        = length (particles (snd (player_vs_entities ens s)))"
    if m: "mset ens2 = mset ens"
  proof -
    obtain r t where a: "player_vs_entities ens s = (r, t)"
      by (cases "player_vs_entities ens s")
    obtain r2 t2 where b: "player_vs_entities ens2 s = (r2, t2)"
      by (cases "player_vs_entities ens2 s")
    note n = length_filter_mset [OF m, of "player_hits (player s)"]
    note x = player_vs_entities_result [OF a]
    note y = player_vs_entities_result [OF b, unfolded n]
    from x y have "mset r2 = mset r"
      using mset_map_cong [OF m] by simp
    moreover from x y have "player t2 = player t" "game_over t2 = game_over t"
      "score t2 = score t"
      by simp_all
    moreover from x y have "length (particles t2) = length (particles t)"
      by auto
    ultimately show ?thesis unfolding a b by simp
  qed
  have two: "player (collide_player (g\<lparr>enemies := es2, obstacles := os2\<rparr>))
        = player (collide_player g) \<and>
      game_over (collide_player (g\<lparr>enemies := es2, obstacles := os2\<rparr>))
        = game_over (collide_player g) \<and>
      score (collide_player (g\<lparr>enemies := es2, obstacles := os2\<rparr>))
        = score (collide_player g) \<and>
      mset (enemies (collide_player (g\<lparr>enemies := es2, obstacles := os2\<rparr>)))
        = mset (enemies (collide_player g)) \<and>
      mset (obstacles (collide_player (g\<lparr>enemies := es2, obstacles := os2\<rparr>)))
        = mset (obstacles (collide_player g))"
    if m: "mset es2 = mset (enemies g)" "mset os2 = mset (obstacles g)"
  proof -
    define g2 where "g2 = g\<lparr>enemies := es2, obstacles := os2\<rparr>"
    have f: "player g2 = player g" "game_over g2 = game_over g" "score g2 = score g"
      "enemies g2 = es2" "obstacles g2 = os2"
      by (simp_all add: g2_def)
    have n: "player_collisions g2 = player_collisions g"
      unfolding g2_def by (rule player_collisions_perm [OF m])
    note x = collide_player_result [of g]
    note y = collide_player_result [of g2, unfolded n f]
    from x y have "player (collide_player g2) = player (collide_player g)"
      "game_over (collide_player g2) = game_over (collide_player g)"
      "score (collide_player g2) = score (collide_player g)"
      by simp_all
    moreover from x y have "mset (enemies (collide_player g2)) = mset (enemies (collide_player g))"
      using mset_map_cong [OF m(1)] by simp
    moreover from x y have
      "mset (obstacles (collide_player g2)) = mset (obstacles (collide_player g))"
      using mset_map_cong [OF m(2)] by simp
    ultimately show ?thesis unfolding g2_def by simp
  qed
  have three: "fst (laser_vs_enemies l (pre @ e # post) s) = l\<lparr>l_active := False\<rparr> \<and>
      fst (snd (laser_vs_enemies l (pre @ e # post) s))
        = pre @ e\<lparr>e_active := False\<rparr> # post"
    if h: "laser_hits l e" "\<forall>x\<in>set pre. \<not> laser_hits l x"
    using laser_vs_enemies_hit [OF h(2) h(1), of post s] by simp
  from one two three show ?thesis by blast
qed

text \<open>
  The enemy at the player's position and the obstacle out of range, checked in both
  orders from a health of 25; and a laser with two enemies in range, in both orders.
\<close>

theorem player_pass_order_witness:
  "mset [ObstacleE near_obstacle, EnemyE scenario_enemy]
     = mset [EnemyE scenario_enemy, ObstacleE near_obstacle] \<and>
   fst (player_vs_entities [EnemyE scenario_enemy, ObstacleE near_obstacle] hit_game)
     = [EnemyE (scenario_enemy\<lparr>e_active := False\<rparr>), ObstacleE near_obstacle] \<and>
   p_hp (player (snd (player_vs_entities [EnemyE scenario_enemy, ObstacleE near_obstacle]
                        hit_game))) = 0 \<and>
   mset (fst (player_vs_entities [ObstacleE near_obstacle, EnemyE scenario_enemy] hit_game))
     = mset [EnemyE (scenario_enemy\<lparr>e_active := False\<rparr>), ObstacleE near_obstacle] \<and>
   p_hp (player (snd (player_vs_entities [ObstacleE near_obstacle, EnemyE scenario_enemy]
                        hit_game))) = 0 \<and>
   laser_hits (Laser_init 0 0 10) scenario_enemy \<and>
   laser_hits (Laser_init 0 0 10) second_enemy \<and>
   fst (snd (laser_vs_enemies (Laser_init 0 0 10) [scenario_enemy, second_enemy] hit_game))
     = [scenario_enemy\<lparr>e_active := False\<rparr>, second_enemy] \<and>
   fst (snd (laser_vs_enemies (Laser_init 0 0 10) [second_enemy, scenario_enemy] hit_game))
     = [second_enemy\<lparr>e_active := False\<rparr>, scenario_enemy]"
proof -
  have l1: "laser_hits (Laser_init 0 0 10) scenario_enemy"
    by (simp add: laser_hits_def in_range_def Laser_init_def scenario_enemy_def)
  have l2: "laser_hits (Laser_init 0 0 10) second_enemy"
    by (simp add: laser_hits_def in_range_def Laser_init_def second_enemy_def)
  have h1: "player_hits (player hit_game) (EnemyE scenario_enemy)"
    by (simp add: player_hits_def hit_game_def initial_game_def Player_init_def
        scenario_enemy_def)
  have h2: "\<not> player_hits (player hit_game) (ObstacleE near_obstacle)"
    by (simp add: player_hits_def hit_game_def initial_game_def Player_init_def
        near_obstacle_def sqrt_less_iff)
  have hp: "p_hp (player hit_game) = 25"
    by (simp add: hit_game_def initial_game_def Player_init_def)
  obtain r t where a:
    "player_vs_entities [EnemyE scenario_enemy, ObstacleE near_obstacle] hit_game = (r, t)"
    by (cases "player_vs_entities [EnemyE scenario_enemy, ObstacleE near_obstacle] hit_game")
  from player_vs_entities_result [OF a] h1 h2 hp
  have x: "r = [EnemyE (scenario_enemy\<lparr>e_active := False\<rparr>), ObstacleE near_obstacle]"
    "p_hp (player t) = 0"
    by simp_all
  have m: "mset [ObstacleE near_obstacle, EnemyE scenario_enemy]
     = mset [EnemyE scenario_enemy, ObstacleE near_obstacle]"
    by simp
  from player_pass_order [of "[ObstacleE near_obstacle, EnemyE scenario_enemy]"
      "[EnemyE scenario_enemy, ObstacleE near_obstacle]" hit_game "[]" hit_game "[]"] m
  have "mset (fst (player_vs_entities [ObstacleE near_obstacle, EnemyE scenario_enemy] hit_game))
      = mset (fst (player_vs_entities [EnemyE scenario_enemy, ObstacleE near_obstacle] hit_game))"
    "player (snd (player_vs_entities [ObstacleE near_obstacle, EnemyE scenario_enemy] hit_game))
      = player (snd (player_vs_entities [EnemyE scenario_enemy, ObstacleE near_obstacle]
                      hit_game))"
    by blast+
  moreover
  from player_pass_order [where l = "Laser_init 0 0 10" and e = scenario_enemy
      and pre = "[]" and post = "[second_enemy]" and s = hit_game] l1
  have "fst (snd (laser_vs_enemies (Laser_init 0 0 10) [scenario_enemy, second_enemy] hit_game))
     = [scenario_enemy\<lparr>e_active := False\<rparr>, second_enemy]"
    by simp
  moreover
  from player_pass_order [where l = "Laser_init 0 0 10" and e = second_enemy
      and pre = "[]" and post = "[scenario_enemy]" and s = hit_game] l2
  have "fst (snd (laser_vs_enemies (Laser_init 0 0 10) [second_enemy, scenario_enemy] hit_game))
     = [second_enemy\<lparr>e_active := False\<rparr>, scenario_enemy]"
    by simp
  ultimately show ?thesis using a x m l1 l2 by simp
qed

end
